theory Spec2Isabelle
  imports Complex_Main "HOL-Library.Log_Nat"
begin

section \<open>JavaScript numbers\<close>

text \<open>
  \<^verbatim>\<open>resizing.ts\<close> computes with JavaScript numbers, that is IEEE 754 binary64
  values. A finite binary64 value is a rational, so a number is modelled as a \<open>rat\<close>, and
  every arithmetic operator of the source is the exact operation followed by
  \<open>to_double\<close>, the rounding to the nearest value with a 53 bit significand, ties to the
  even significand. The model leaves out what the widths and pixel positions of a column
  group never reach: \<open>NaN\<close>, the infinities, the sign of zero, and the bounds of the
  exponent (overflow and subnormal numbers).
\<close>

type_synonym number = rat

definition pow2 :: "int \<Rightarrow> rat" where
  "pow2 e = (if 0 \<le> e then 2 ^ nat e else 1 / 2 ^ nat (- e))"

text \<open>For \<open>x > 0\<close>, \<open>binade x\<close> is the exponent \<open>e\<close> with \<open>2^e \<le> x < 2^(e+1)\<close>.\<close>

definition binade :: "rat \<Rightarrow> int" where
  "binade x = (let (a, b) = quotient_of x; d = bitlen a - bitlen b
               in if pow2 d \<le> x then d else d - 1)"

definition round_half_even :: "rat \<Rightarrow> int" where
  "round_half_even y = (let n = \<lfloor>y\<rfloor>; r = y - of_int n
     in if r < 1 / 2 then n else if 1 / 2 < r then n + 1 else if even n then n else n + 1)"

definition to_double :: "rat \<Rightarrow> number" where
  "to_double x = (if x = 0 then 0
     else let u = pow2 (binade \<bar>x\<bar> - 52) in of_int (round_half_even (x / u)) * u)"

definition js_add :: "number \<Rightarrow> number \<Rightarrow> number" where
  "js_add x y = to_double (x + y)"

definition js_sub :: "number \<Rightarrow> number \<Rightarrow> number" where
  "js_sub x y = to_double (x - y)"

definition js_mul :: "number \<Rightarrow> number \<Rightarrow> number" where
  "js_mul x y = to_double (x * y)"

text \<open>
  \<open>x / 0\<close> is \<open>Infinity\<close> in JavaScript and \<open>0\<close> here. The only divisor of the source is
  the grid size; what the functions below return at grid size 0 is noted at each.
\<close>

definition js_div :: "number \<Rightarrow> number \<Rightarrow> number" where
  "js_div x y = to_double (x / y)"

text \<open>
  \<open>Math.round\<close> rounds to the nearest integer, a tie towards \<open>+\<infinity>\<close>; \<open>Math.floor\<close>
  rounds down. Both are exact on binary64 values of this size.
\<close>

definition Math_round :: "number \<Rightarrow> number" where
  "Math_round x = of_int \<lfloor>x + 1 / 2\<rfloor>"

definition Math_floor :: "number \<Rightarrow> number" where
  "Math_floor x = of_int \<lfloor>x\<rfloor>"

text \<open>
  \<open>x.toFixed(d)\<close> is the decimal numeral \<open>n / 10^d\<close> with the sign of \<open>x\<close>, where \<open>n\<close> is
  the integer nearest to \<open>|x| * 10^d\<close>, the larger one at a tie (ECMAScript,
  Number.prototype.toFixed). The string is modelled by the rational it denotes; it is
  never empty. \<open>parseFloat\<close> and the unary conversion of such a string give the nearest
  binary64 value. A number converted by \<open>toString\<close> and read back by \<open>parseFloat\<close> is the
  same number, so \<open>parseFloat(x.toString())\<close> is modelled by \<open>x\<close> itself.
\<close>

definition toFixed :: "number \<Rightarrow> nat \<Rightarrow> rat" where
  "toFixed x d = (let s = 10 ^ d; n = \<lfloor>\<bar>x\<bar> * s + 1 / 2\<rfloor> in sgn x * of_int n / s)"

definition parseFloat :: "rat \<Rightarrow> number" where
  "parseFloat s = to_double s"

section \<open>Width snapping\<close>

text \<open>
  \<open>getGridSize\<close> reads the configured grid size of the column group; it is the parameter
  \<open>gridSize\<close> of every function below.

  The grid percentage of the loop of \<open>getAcceptedColumnWidth\<close> for the counter \<open>i\<close>:
  \<^verbatim>\<open>parseFloat((100 / gridSize * i).toFixed(Math.round((100 / gridSize * i)) !== (100 / gridSize * i) ? 8 : 0))\<close>
\<close>

definition percentage :: "nat \<Rightarrow> nat \<Rightarrow> number" where
  "percentage gridSize i =
     (let v = js_mul (js_div 100 (of_nat gridSize)) (of_nat i)
      in parseFloat (toFixed v (if Math_round v \<noteq> v then 8 else 0)))"

text \<open>
  The loop \<^verbatim>\<open>for (let i = gridSize; i > 0; i--)\<close> of \<open>getAcceptedColumnWidth\<close>, as a
  recursion on the counter; \<open>width\<close> is \<open>parseFloat(width)\<close> of the source, and the result
  is \<open>newWidth\<close>, which is \<open>0\<close> when no iteration matches.
\<close>

fun accepted_from :: "nat \<Rightarrow> number \<Rightarrow> nat \<Rightarrow> number" where
  "accepted_from gridSize width 0 = 0"
| "accepted_from gridSize width (Suc n) =
     (let p = percentage gridSize (Suc n)
      in if width > js_sub p (parseFloat (1 / 10)) \<and> width < js_add p (parseFloat (1 / 10))
         then p
         else accepted_from gridSize width n)"

definition getAcceptedColumnWidth :: "nat \<Rightarrow> number \<Rightarrow> number" where
  "getAcceptedColumnWidth gridSize width = accepted_from gridSize width gridSize"

text \<open>
  At grid size 0 the source passes \<open>"Infinity"\<close> to \<open>getAcceptedColumnWidth\<close>, whose loop
  does not run, and returns 0; so does the model.
\<close>

definition getSmallestColumnWidth :: "nat \<Rightarrow> number" where
  "getSmallestColumnWidth gridSize =
     (let q = js_div 100 (of_nat gridSize)
      in getAcceptedColumnWidth gridSize
           (parseFloat (toFixed q (if Math_round q \<noteq> q then 8 else 0))))"

definition getRoundedColumnWidth :: "number \<Rightarrow> number" where
  "getRoundedColumnWidth width =
     parseFloat (toFixed width (if Math_round width \<noteq> width then 8 else 0))"

section \<open>Columns of a group\<close>

text \<open>
  A column is an object with identity; \<open>cid\<close> names it. \<open>column.parent.children()\<close> is
  the ordered list of the columns of the group. The \<open>width\<close> entry of the data store of
  each column is kept in a \<open>store\<close>, as the number that \<open>parseFloat\<close> reads from it
  (\<open>updateColumnWidth\<close> writes \<^verbatim>\<open>parseFloat(width.toString()) + "%"\<close>). The pixel
  geometry that the source reads from the preview element of a column is an \<open>element\<close>.
\<close>

type_synonym cid = nat

type_synonym store = "cid \<Rightarrow> number"

record element =
  offset_left :: number      \<comment> \<open>\<^verbatim>\<open>element.offset().left\<close>\<close>
  margin_left :: number      \<comment> \<open>\<^verbatim>\<open>parseInt(element.css("margin-left"), 10)\<close>\<close>
  outerWidth_true :: number  \<comment> \<open>\<^verbatim>\<open>element.outerWidth(true)\<close>\<close>

datatype error = TypeError

definition getColumnWidth :: "nat \<Rightarrow> store \<Rightarrow> cid \<Rightarrow> number" where
  "getColumnWidth gridSize st column = getAcceptedColumnWidth gridSize (st column)"

text \<open>\<open>Array.prototype.indexOf\<close>: the first index of the element, \<open>-1\<close> when absent.\<close>

fun indexOf :: "'a list \<Rightarrow> 'a \<Rightarrow> int" where
  "indexOf [] x = - 1"
| "indexOf (y # ys) x =
     (if y = x then 0 else let r = indexOf ys x in if r < 0 then - 1 else r + 1)"

definition getColumnIndexInGroup :: "cid list \<Rightarrow> cid \<Rightarrow> int" where
  "getColumnIndexInGroup children column = indexOf children column"

datatype adjacent_direction = Plus1 | Minus1

fun parseInt_direction :: "adjacent_direction \<Rightarrow> int" where
  "parseInt_direction Plus1 = 1"
| "parseInt_direction Minus1 = - 1"

text \<open>
  An array read outside \<open>0 .. length - 1\<close> is \<open>undefined\<close>, for which the source
  returns \<open>null\<close>: \<open>None\<close>.
\<close>

definition getAdjacentColumn :: "cid list \<Rightarrow> cid \<Rightarrow> adjacent_direction \<Rightarrow> cid option" where
  "getAdjacentColumn children column direction =
     (let currentIndex = getColumnIndexInGroup children column;
          t = currentIndex + parseInt_direction direction
      in if 0 \<le> t \<and> t < int (length children) then Some (children ! nat t) else None)"

section \<open>Pixel positions of the grid\<close>

record ColumnWidth =
  forColumn :: string
  name :: string
  position :: number
  width :: number

record GroupPositionCache =
  left :: number
  outerWidth :: number

record MaxGhostWidth =
  left :: number
  right :: number

text \<open>The decimal numeral of a natural number, for \<^verbatim>\<open>i + "/" + gridSize\<close>.\<close>

fun string_of_nat :: "nat \<Rightarrow> string" where
  "string_of_nat n =
     (if n < 10 then [char_of (48 + n)]
      else string_of_nat (n div 10) @ [char_of (48 + n mod 10)])"

declare string_of_nat.simps [simp del]

text \<open>
  The first loop of \<open>determineColumnWidths\<close>, \<^verbatim>\<open>for (let i = gridSize; i > 0; i--)\<close>, as
  a recursion on the counter: the entries pushed for \<open>i = n, n - 1, \<dots>, 1\<close>, in this order.
\<close>

fun leftColumnWidths :: "nat \<Rightarrow> number \<Rightarrow> number \<Rightarrow> number \<Rightarrow> nat \<Rightarrow> ColumnWidth list" where
  "leftColumnWidths gridSize columnLeft singleColumnWidth leftMaxWidthFromChildren 0 = []"
| "leftColumnWidths gridSize columnLeft singleColumnWidth leftMaxWidthFromChildren (Suc n) =
     (let i = Suc n;
          pos = Math_round (js_add columnLeft (js_mul singleColumnWidth (of_nat i)))
      in (if pos > Math_round leftMaxWidthFromChildren then []
          else [\<lparr>forColumn = ''left'',
                 name = string_of_nat i @ ''/'' @ string_of_nat gridSize,
                 position = pos,
                 width = getRoundedColumnWidth (js_mul (js_div 100 (of_nat gridSize)) (of_nat i))\<rparr>])
         @ leftColumnWidths gridSize columnLeft singleColumnWidth leftMaxWidthFromChildren n)"

text \<open>
  The second loop, \<^verbatim>\<open>for (let i = 1; i < gridSize; i++)\<close>: the entries pushed for
  \<open>i = 1, \<dots>, n\<close>, in this order; the source runs it to \<open>n = gridSize - 1\<close>.
\<close>

fun rightColumnWidths :: "nat \<Rightarrow> number \<Rightarrow> number \<Rightarrow> number \<Rightarrow> nat \<Rightarrow> ColumnWidth list" where
  "rightColumnWidths gridSize adjacentRightPosition singleColumnWidth rightMaxWidthFromChildren 0 = []"
| "rightColumnWidths gridSize adjacentRightPosition singleColumnWidth rightMaxWidthFromChildren (Suc n) =
     rightColumnWidths gridSize adjacentRightPosition singleColumnWidth rightMaxWidthFromChildren n
     @ (let i = Suc n;
            pos = Math_floor (js_sub adjacentRightPosition (js_mul (of_nat i) singleColumnWidth))
        in if pos < Math_floor rightMaxWidthFromChildren then []
           else [\<lparr>forColumn = ''right'',
                  name = string_of_nat i @ ''/'' @ string_of_nat gridSize,
                  position = pos,
                  width = getRoundedColumnWidth (js_mul (js_div 100 (of_nat gridSize)) (of_nat i))\<rparr>])"

text \<open>
  \<open>determineColumnWidths\<close> reads \<open>adjacentColumn.preview\<close> without a test: when
  \<open>getAdjacentColumn\<close> returned \<open>null\<close> the read throws a \<open>TypeError\<close>, before any
  candidate is computed.
\<close>

definition determineColumnWidths ::
  "nat \<Rightarrow> cid list \<Rightarrow> (cid \<Rightarrow> element) \<Rightarrow> cid \<Rightarrow> GroupPositionCache \<Rightarrow> error + ColumnWidth list" where
  "determineColumnWidths gridSize children preview column groupPosition =
     (let singleColumnWidth = js_div (GroupPositionCache.outerWidth groupPosition) (of_nat gridSize);
          adjacentColumn = getAdjacentColumn children column Plus1;
          columnLeft = js_sub (offset_left (preview column)) (margin_left (preview column))
      in case adjacentColumn of
           None \<Rightarrow> Inl TypeError
         | Some adjacent \<Rightarrow>
            (let adjacentRightPosition =
                   js_add (offset_left (preview adjacent)) (outerWidth_true (preview adjacent));
                 columnsToRight =
                   int (length children) - (getColumnIndexInGroup children column + 1);
                 leftMaxWidthFromChildren =
                   js_add (js_sub (js_add (GroupPositionCache.left groupPosition)
                                          (GroupPositionCache.outerWidth groupPosition))
                                  (js_mul (of_int columnsToRight) singleColumnWidth)) 10;
                 rightMaxWidthFromChildren =
                   js_sub (js_add (GroupPositionCache.left groupPosition)
                                  (js_mul (of_int (int (length children) - columnsToRight))
                                          singleColumnWidth)) 10
             in Inr (leftColumnWidths gridSize columnLeft singleColumnWidth
                       leftMaxWidthFromChildren gridSize
                     @ rightColumnWidths gridSize adjacentRightPosition singleColumnWidth
                         rightMaxWidthFromChildren (gridSize - 1))))"

text \<open>
  \<open>leftColumns[0]\<close> of an empty array and \<open>rightColumns[rightColumns.length - 1]\<close> of an
  empty array are \<open>undefined\<close>; reading \<open>.position\<close> of it throws a \<open>TypeError\<close>. The
  object literal evaluates \<open>left\<close> first.
\<close>

definition determineMaxGhostWidth :: "ColumnWidth list \<Rightarrow> error + MaxGhostWidth" where
  "determineMaxGhostWidth columnWidths =
     (let leftColumns = filter (\<lambda>w. forColumn w = ''left'') columnWidths;
          rightColumns = filter (\<lambda>w. forColumn w = ''right'') columnWidths
      in case leftColumns of
           [] \<Rightarrow> Inl TypeError
         | l # _ \<Rightarrow>
            (if rightColumns = [] then Inl TypeError
             else Inr \<lparr>MaxGhostWidth.left = position l,
                       MaxGhostWidth.right = position (rightColumns ! (length rightColumns - 1))\<rparr>))"

section \<open>Shrinkable columns and the resize decision\<close>

datatype search_direction = Dleft | Dright

text \<open>
  \<open>slice(currentIndex + 1)\<close> and \<open>slice(0).reverse().slice(length - currentIndex)\<close>: both
  start indices are at least 0 (the index is at least \<open>-1\<close>); \<open>find\<close> returns
  \<open>undefined\<close>, here \<open>None\<close>, when no column matches.
\<close>

definition findShrinkableColumnForResize ::
  "nat \<Rightarrow> cid list \<Rightarrow> store \<Rightarrow> cid \<Rightarrow> search_direction \<Rightarrow> cid option" where
  "findShrinkableColumnForResize gridSize children st column direction =
     (let currentIndex = getColumnIndexInGroup children column;
          parentChildren = children;
          searchArray = (case direction of
             Dright \<Rightarrow> drop (nat (currentIndex + 1)) parentChildren
           | Dleft \<Rightarrow> drop (nat (int (length parentChildren) - currentIndex)) (rev parentChildren))
      in find (\<lambda>groupColumn. getColumnWidth gridSize st groupColumn > getSmallestColumnWidth gridSize)
           searchArray)"

record HistoryRecord =
  adjustedColumn :: "cid option"
  modifyColumnInPair :: string

record ResizeHistory =
  left :: "HistoryRecord list"
  right :: "HistoryRecord list"

text \<open>
  \<open>Array.prototype.reverse\<close> reverses the array in place and returns it, so each
  \<open>history.left.reverse()\<close> of the source changes \<open>history.left\<close>: the function returns
  the history next to its result.
\<close>

definition determineAdjustedColumn ::
  "nat \<Rightarrow> cid list \<Rightarrow> store \<Rightarrow> (cid \<Rightarrow> element) \<Rightarrow> number \<Rightarrow> cid \<Rightarrow> ResizeHistory
     \<Rightarrow> (cid option \<times> string \<times> string option) \<times> ResizeHistory" where
  "determineAdjustedColumn gridSize children st preview currentPos column history =
     (let resizeColumnLeft = js_sub (offset_left (preview column)) (margin_left (preview column));
          resizeColumnWidth = outerWidth_true (preview column);
          resizeHandlePosition = js_add resizeColumnLeft resizeColumnWidth
      in if currentPos \<ge> resizeHandlePosition then
           (if length (ResizeHistory.left history) > 0 then
              (let h1 = history\<lparr>ResizeHistory.left := rev (ResizeHistory.left history)\<rparr>;
                   adjusted = adjustedColumn (ResizeHistory.left h1 ! 0);
                   h2 = h1\<lparr>ResizeHistory.left := rev (ResizeHistory.left h1)\<rparr>;
                   modify = modifyColumnInPair (ResizeHistory.left h2 ! 0)
               in ((adjusted, modify, Some ''left''), h2))
            else
              ((findShrinkableColumnForResize gridSize children st column Dright, ''left'', None),
               history))
         else
           (if getColumnWidth gridSize st column \<le> getSmallestColumnWidth gridSize then
              (let adjusted = findShrinkableColumnForResize gridSize children st column Dleft
               in ((adjusted, if adjusted \<noteq> None then ''right'' else ''left'', None), history))
            else if length (ResizeHistory.right history) > 0 then
              (let h1 = history\<lparr>ResizeHistory.right := rev (ResizeHistory.right history)\<rparr>;
                   adjusted = adjustedColumn (ResizeHistory.right h1 ! 0);
                   h2 = h1\<lparr>ResizeHistory.right := rev (ResizeHistory.right h1)\<rparr>;
                   modify = modifyColumnInPair (ResizeHistory.right h2 ! 0)
               in ((adjusted, modify, Some ''right''), h2))
            else
              ((getAdjacentColumn children column Plus1, ''left'', None), history)))"

section \<open>Applying a resize\<close>

definition updateColumnWidth :: "store \<Rightarrow> cid \<Rightarrow> number \<Rightarrow> store" where
  "updateColumnWidth st column w = st(column := w)"

text \<open>
  The locals \<open>difference\<close> and \<open>shrinkableSize\<close> of \<open>resizeColumn\<close>:
  \<^verbatim>\<open>(parseFloat(width.toString()) - current).toFixed(8)\<close> and
  \<^verbatim>\<open>this.getAcceptedColumnWidth((currentShrinkable + -difference).toString())\<close>.
\<close>

definition difference :: "nat \<Rightarrow> store \<Rightarrow> cid \<Rightarrow> number \<Rightarrow> rat" where
  "difference gridSize st column w = toFixed (js_sub w (getColumnWidth gridSize st column)) 8"

definition shrinkableSize :: "nat \<Rightarrow> store \<Rightarrow> cid \<Rightarrow> number \<Rightarrow> cid \<Rightarrow> number" where
  "shrinkableSize gridSize st column w sc =
     getAcceptedColumnWidth gridSize
       (js_add (getColumnWidth gridSize st sc) (- parseFloat (difference gridSize st column w)))"

text \<open>
  \<open>difference\<close> is a string of \<open>toFixed\<close>, never empty and so always truthy: the test
  \<^verbatim>\<open>difference && shrinkableColumn\<close> is the test that a column was passed. The result
  is the store after the call.
\<close>

definition resizeColumn :: "nat \<Rightarrow> store \<Rightarrow> cid \<Rightarrow> number \<Rightarrow> cid option \<Rightarrow> store" where
  "resizeColumn gridSize st column w shrinkableColumn =
     (let current = getColumnWidth gridSize st column
      in if current = w \<or> w < getSmallestColumnWidth gridSize then st
         else
           (let (allowedToShrink, st1) =
                  (case shrinkableColumn of
                     None \<Rightarrow> (True, st)
                   | Some sc \<Rightarrow>
                      (let currentShrinkable = getColumnWidth gridSize st sc;
                           size = shrinkableSize gridSize st column w sc
                       in if currentShrinkable = size \<or> size < getSmallestColumnWidth gridSize
                          then (False, st)
                          else (True, updateColumnWidth st sc size)))
            in if allowedToShrink then updateColumnWidth st1 column w else st1))"

section \<open>Auxiliary notions for the proofs\<close>

text \<open>The test of one iteration of the loop of \<open>getAcceptedColumnWidth\<close>.\<close>

definition in_window :: "nat \<Rightarrow> number \<Rightarrow> nat \<Rightarrow> bool" where
  "in_window gridSize w i =
     (w > js_sub (percentage gridSize i) (parseFloat (1 / 10))
      \<and> w < js_add (percentage gridSize i) (parseFloat (1 / 10)))"

text \<open>The width is one of the grid percentages of the loop of \<open>getAcceptedColumnWidth\<close>.\<close>

definition on_grid :: "nat \<Rightarrow> number \<Rightarrow> bool" where
  "on_grid gridSize w = (w \<in> percentage gridSize ` {1..gridSize})"

text \<open>A store given by the widths of the columns \<open>0, 1, \<dots>\<close>, for concrete rows.\<close>

definition store_of :: "number list \<Rightarrow> store" where
  "store_of ws c = (if c < length ws then ws ! c else 0)"

text \<open>A row of 207 columns on a grid of 235 units: 2, 28 and 205 times 1 unit.\<close>

definition row_235 :: "number list" where
  "row_235 = percentage 235 2 # percentage 235 28 # replicate 205 (percentage 235 1)"

text \<open>The preview elements of the columns \<open>0, 1, \<dots>\<close>, and a row of three columns.\<close>

definition preview_of :: "element list \<Rightarrow> cid \<Rightarrow> element" where
  "preview_of es c =
     (if c < length es then es ! c
      else \<lparr>offset_left = 0, margin_left = 0, outerWidth_true = 0\<rparr>)"

definition three_columns :: "cid \<Rightarrow> element" where
  "three_columns = preview_of
     [\<lparr>offset_left = 100, margin_left = 0, outerWidth_true = 300\<rparr>,
      \<lparr>offset_left = 400, margin_left = 0, outerWidth_true = 600\<rparr>,
      \<lparr>offset_left = 1000, margin_left = 0, outerWidth_true = 300\<rparr>]"

text \<open>A history whose \<open>left\<close> entries differ in \<open>modifyColumnInPair\<close>; the last one is the most recent.\<close>

definition two_decisions :: ResizeHistory where
  "two_decisions =
     \<lparr>ResizeHistory.left =
        [\<lparr>adjustedColumn = Some 2, modifyColumnInPair = ''left''\<rparr>,
         \<lparr>adjustedColumn = Some 0, modifyColumnInPair = ''right''\<rparr>],
      ResizeHistory.right = []\<rparr>"

section \<open>The rounding error of a binary64 operation\<close>

lemma pow2_powi: "pow2 e = 2 powi e"
  by (simp add: pow2_def power_int_def field_simps)

lemma pow2_pos: "0 < pow2 e"
  by (simp add: pow2_powi)

lemma pow2_diff: "pow2 (a - b) = pow2 a / pow2 b"
  by (simp add: pow2_powi power_int_diff)

lemma pow2_nat: "pow2 (int n) = 2 ^ n"
  by (simp add: pow2_def)

lemma binade_le:
  assumes "0 < x"
  shows "pow2 (binade x) \<le> x"
proof -
  obtain a b where q: "quotient_of x = (a, b)" by (cases "quotient_of x")
  have b: "0 < b" using q quotient_of_denom_pos by blast
  have x: "x = of_int a / of_int b" using q quotient_of_div by blast
  have a: "0 < a" using assms b x by (simp add: zero_less_divide_iff)
  define d where "d = bitlen a - bitlen b"
  show ?thesis
  proof (cases "pow2 d \<le> x")
    case True
    then show ?thesis by (simp add: binade_def q d_def Let_def)
  next
    case False
    have la: "(2::rat) ^ nat (bitlen a - 1) \<le> of_int a"
    proof -
      have "2 ^ nat (bitlen a - 1) \<le> a" using bitlen_bounds [OF a] by simp
      then have "(of_int (2 ^ nat (bitlen a - 1)) :: rat) \<le> of_int a" by (simp only: of_int_le_iff)
      then show ?thesis by simp
    qed
    have ub: "(of_int b :: rat) < 2 ^ nat (bitlen b)"
    proof -
      have "b < 2 ^ nat (bitlen b)" using bitlen_bounds [OF b] by simp
      then have "(of_int b :: rat) < of_int (2 ^ nat (bitlen b))" by (simp only: of_int_less_iff)
      then show ?thesis by simp
    qed
    have ba: "1 \<le> bitlen a" using a by (simp add: bitlen_alt_def)
    have bb: "0 \<le> bitlen b" by (rule bitlen_nonneg)
    have "pow2 (d - 1) = pow2 (bitlen a - 1) / pow2 (bitlen b)"
      by (simp add: d_def pow2_diff [symmetric] algebra_simps)
    also have "\<dots> = 2 ^ nat (bitlen a - 1) / 2 ^ nat (bitlen b)"
      using ba bb by (simp add: pow2_def)
    also have "\<dots> \<le> of_int a / 2 ^ nat (bitlen b)"
      using la by (simp add: divide_right_mono)
    also have "\<dots> \<le> of_int a / of_int b"
      using ub a b by (intro divide_left_mono) (auto simp: less_imp_le)
    finally have "pow2 (d - 1) \<le> x" using x by simp
    then show ?thesis using False by (simp add: binade_def q d_def Let_def)
  qed
qed

lemma binade_less:
  assumes "0 < x"
  shows "x < pow2 (binade x + 1)"
proof -
  obtain a b where q: "quotient_of x = (a, b)" by (cases "quotient_of x")
  have b: "0 < b" using q quotient_of_denom_pos by blast
  have x: "x = of_int a / of_int b" using q quotient_of_div by blast
  have a: "0 < a" using assms b x by (simp add: zero_less_divide_iff)
  define d where "d = bitlen a - bitlen b"
  show ?thesis
  proof (cases "pow2 d \<le> x")
    case False
    then show ?thesis by (simp add: binade_def q d_def Let_def)
  next
    case True
    have ua: "(of_int a :: rat) < 2 ^ nat (bitlen a)"
    proof -
      have "a < 2 ^ nat (bitlen a)" using bitlen_bounds [OF a] by simp
      then have "(of_int a :: rat) < of_int (2 ^ nat (bitlen a))" by (simp only: of_int_less_iff)
      then show ?thesis by simp
    qed
    have lb: "(2::rat) ^ nat (bitlen b - 1) \<le> of_int b"
    proof -
      have "2 ^ nat (bitlen b - 1) \<le> b" using bitlen_bounds [OF b] by simp
      then have "(of_int (2 ^ nat (bitlen b - 1)) :: rat) \<le> of_int b" by (simp only: of_int_le_iff)
      then show ?thesis by simp
    qed
    have ba: "0 \<le> bitlen a" by (rule bitlen_nonneg)
    have bb: "1 \<le> bitlen b" using b by (simp add: bitlen_alt_def)
    have "x = of_int a / of_int b" by (rule x)
    also have "\<dots> < 2 ^ nat (bitlen a) / of_int b"
      using ua b by (simp add: divide_strict_right_mono)
    also have "\<dots> \<le> 2 ^ nat (bitlen a) / 2 ^ nat (bitlen b - 1)"
      using lb b by (intro divide_left_mono) simp_all
    also have "\<dots> = pow2 (bitlen a) / pow2 (bitlen b - 1)"
      using ba bb by (simp add: pow2_def)
    also have "\<dots> = pow2 (d + 1)"
      by (simp add: d_def pow2_diff [symmetric] algebra_simps)
    finally show ?thesis using True by (simp add: binade_def q d_def Let_def)
  qed
qed

lemma round_half_even_err: "\<bar>of_int (round_half_even y) - y\<bar> \<le> 1 / 2"
proof -
  have "of_int \<lfloor>y\<rfloor> \<le> y" "y < of_int \<lfloor>y\<rfloor> + 1" by linarith+
  then show ?thesis
    by (auto simp: round_half_even_def Let_def abs_le_iff)
qed

lemma to_double_err: "\<bar>to_double x - x\<bar> \<le> \<bar>x\<bar> / 2 ^ 53"
proof (cases "x = 0")
  case True
  then show ?thesis by (simp add: to_double_def)
next
  case False
  define u where "u = pow2 (binade \<bar>x\<bar> - 52)"
  have u0: "0 < u" by (simp add: u_def pow2_pos)
  have "u = pow2 (binade \<bar>x\<bar>) / 2 ^ 52"
    using pow2_diff [of "binade \<bar>x\<bar>" 52] pow2_nat [of 52] by (simp add: u_def)
  moreover have "pow2 (binade \<bar>x\<bar>) \<le> \<bar>x\<bar>" using False by (intro binade_le) simp
  ultimately have ub: "u \<le> \<bar>x\<bar> / 2 ^ 52" by (simp add: divide_right_mono)
  have td: "to_double x = of_int (round_half_even (x / u)) * u"
    using False by (simp add: to_double_def u_def Let_def)
  have "to_double x - x = (of_int (round_half_even (x / u)) - x / u) * u"
    using u0 by (simp add: td algebra_simps)
  then have "\<bar>to_double x - x\<bar> = \<bar>of_int (round_half_even (x / u)) - x / u\<bar> * u"
    using u0 by (simp add: abs_mult)
  also have "\<dots> \<le> (1 / 2) * u"
    using round_half_even_err [of "x / u"] u0 by (intro mult_right_mono) auto
  also have "\<dots> \<le> (1 / 2) * (\<bar>x\<bar> / 2 ^ 52)" using ub by simp
  also have "\<dots> = \<bar>x\<bar> / 2 ^ 53" by simp
  finally show ?thesis .
qed

text \<open>The rounding on three values whose binary64 neighbours are known.\<close>

lemma to_double_examples:
  "to_double (1 / 10) = 3602879701896397 / 36028797018963968"
  "to_double (to_double (100 / 3) * 3) = 100"
  "to_double 100 = 100"
  by code_simp+

lemma to_double_close:
  assumes "\<bar>x\<bar> \<le> 1024"
  shows "\<bar>to_double x - x\<bar> \<le> 1 / 2 ^ 43"
proof -
  have "\<bar>to_double x - x\<bar> \<le> \<bar>x\<bar> / 2 ^ 53" by (rule to_double_err)
  also have "\<dots> \<le> 1024 / 2 ^ 53" using assms by (simp add: divide_right_mono)
  also have "\<dots> = 1 / 2 ^ 43" by simp
  finally show ?thesis .
qed

lemma toFixed_err: "\<bar>toFixed x d - x\<bar> \<le> 1 / (2 * 10 ^ d)"
proof -
  define s :: rat where "s = 10 ^ d"
  define n where "n = \<lfloor>\<bar>x\<bar> * s + 1 / 2\<rfloor>"
  have s0: "0 < s" by (simp add: s_def)
  have n1: "of_int n \<le> \<bar>x\<bar> * s + 1 / 2" and n2: "\<bar>x\<bar> * s + 1 / 2 < of_int n + 1"
    unfolding n_def by linarith+
  have h: "\<bar>of_int n - \<bar>x\<bar> * s\<bar> \<le> 1 / 2" using n1 n2 by linarith
  have "of_int n / s - \<bar>x\<bar> = (of_int n - \<bar>x\<bar> * s) / s"
    using s0 by (simp add: field_simps)
  then have "\<bar>of_int n / s - \<bar>x\<bar>\<bar> = \<bar>of_int n - \<bar>x\<bar> * s\<bar> / s"
    using s0 by simp
  also have "\<dots> \<le> (1 / 2) / s"
    using h s0 by (intro divide_right_mono) simp_all
  finally have e: "\<bar>of_int n / s - \<bar>x\<bar>\<bar> \<le> 1 / (2 * s)" by simp
  have tf: "toFixed x d = sgn x * (of_int n / s)"
    by (simp add: toFixed_def Let_def s_def n_def)
  consider "x = 0" | "0 < x" | "x < 0" by linarith
  then have "\<bar>toFixed x d - x\<bar> \<le> \<bar>of_int n / s - \<bar>x\<bar>\<bar>"
  proof cases
    case 1
    then have "toFixed x d = 0" by (simp add: toFixed_def)
    with 1 show ?thesis by simp
  next
    case 2
    then show ?thesis by (simp add: tf)
  next
    case 3
    then have "toFixed x d - x = - (of_int n / s - \<bar>x\<bar>)" by (simp add: tf)
    then show ?thesis by (simp only: abs_minus_cancel order_refl)
  qed
  then show ?thesis using e by (simp add: s_def)
qed

lemma toFixed_whole:
  assumes "Math_round v = v"
  shows "toFixed v 0 = v"
proof -
  define n where "n = \<lfloor>v + 1 / 2\<rfloor>"
  have v: "v = of_int n" using assms by (simp add: Math_round_def n_def)
  have "\<lfloor>(of_int \<bar>n\<bar> :: rat) + 1 / 2\<rfloor> = \<bar>n\<bar>"
    by (rule floor_unique) simp_all
  then have "\<lfloor>\<bar>of_int n :: rat\<bar> + 1 / 2\<rfloor> = \<bar>n\<bar>" by simp
  then show ?thesis
    by (simp add: toFixed_def v Let_def sgn_if)
qed

lemma to_double_near:
  assumes "\<bar>x\<bar> \<le> 1024"
  shows "\<bar>to_double x - x\<bar> \<le> 1 / 1000000000000"
proof -
  have "\<bar>to_double x - x\<bar> \<le> 1 / 2 ^ 43" using assms by (rule to_double_close)
  also have "\<dots> \<le> 1 / 1000000000000" by simp
  finally show ?thesis .
qed

lemma toFixed_near:
  assumes "d = (if Math_round v \<noteq> v then 8 else 0)"
  shows "\<bar>toFixed v d - v\<bar> \<le> 5 / 1000000000"
proof (cases "Math_round v = v")
  case True
  then show ?thesis using assms toFixed_whole [of v] by simp
next
  case False
  then have "d = 8" using assms by simp
  then show ?thesis using toFixed_err [of v 8] by simp
qed

lemma percentage_close_tight:
  assumes g: "1 \<le> g" and i: "i \<le> g"
  shows "\<bar>percentage g i - 100 * of_nat i / of_nat g\<bar> \<le> 5003 / 1000000000000"
proof -
  define r :: rat where "r = 100 / of_nat g"
  define q where "q = js_div 100 (of_nat g)"
  define v where "v = js_mul q (of_nat i)"
  define t where "t = toFixed v (if Math_round v \<noteq> v then 8 else 0)"
  have g0: "(0::rat) < of_nat g" using g by simp
  have r0: "0 < r" using g0 by (simp add: r_def)
  have ri: "r * of_nat i \<le> 100"
  proof -
    have "(of_nat i :: rat) \<le> of_nat g" using i by simp
    then have "100 * (of_nat i :: rat) / of_nat g \<le> 100" using g0 by (simp add: field_simps)
    then show ?thesis by (simp add: r_def)
  qed
  have ri0: "0 \<le> r * of_nat i" using r0 by simp
  have "\<bar>q - r\<bar> \<le> r / 2 ^ 53"
    using to_double_err [of r] r0 by (simp add: q_def js_div_def r_def)
  then have "\<bar>q - r\<bar> * of_nat i \<le> r / 2 ^ 53 * of_nat i"
    by (intro mult_right_mono) simp_all
  moreover have "\<bar>q * of_nat i - r * of_nat i\<bar> = \<bar>q - r\<bar> * of_nat i"
    by (simp add: left_diff_distrib [symmetric] abs_mult)
  moreover have "r / 2 ^ 53 * of_nat i = (r * of_nat i) / 2 ^ 53" by simp
  moreover have "(r * of_nat i) / 2 ^ 53 \<le> 100 / 2 ^ 53"
    using ri by (intro divide_right_mono) simp_all
  moreover have "(100::rat) / 2 ^ 53 \<le> 1 / 1000000000000" by simp
  ultimately have e1: "\<bar>q * of_nat i - r * of_nat i\<bar> \<le> 1 / 1000000000000" by linarith
  then have b1: "\<bar>q * of_nat i\<bar> \<le> 1024" using ri ri0 by linarith
  have e2: "\<bar>v - q * of_nat i\<bar> \<le> 1 / 1000000000000"
    using to_double_near [OF b1] by (simp add: v_def js_mul_def)
  have e3: "\<bar>t - v\<bar> \<le> 5 / 1000000000"
    unfolding t_def by (rule toFixed_near) simp
  have b3: "\<bar>t\<bar> \<le> 1024" using e1 e2 e3 ri ri0 by linarith
  have e4: "\<bar>to_double t - t\<bar> \<le> 1 / 1000000000000" by (rule to_double_near [OF b3])
  have p: "percentage g i = to_double t"
    by (simp add: percentage_def Let_def parseFloat_def t_def v_def q_def)
  have "100 * of_nat i / of_nat g = r * of_nat i" by (simp add: r_def)
  then show ?thesis using e1 e2 e3 e4 p by linarith
qed

lemma percentage_close:
  assumes "1 \<le> g" and "i \<le> g"
  shows "\<bar>percentage g i - 100 * of_nat i / of_nat g\<bar> \<le> 6 / 1000000000"
  using percentage_close_tight [OF assms] by linarith

lemma tenth_close: "\<bar>parseFloat (1 / 10) - 1 / 10\<bar> \<le> 1 / 1000000000000"
  unfolding parseFloat_def by (rule to_double_near) simp

section \<open>The loop of \<open>getAcceptedColumnWidth\<close>\<close>

lemma accepted_from_Suc:
  "accepted_from g w (Suc n) =
     (if in_window g w (Suc n) then percentage g (Suc n) else accepted_from g w n)"
  by (simp add: in_window_def Let_def)

lemma window_bounds:
  assumes g: "1 \<le> g" and i: "i \<le> g"
  shows "\<bar>js_sub (percentage g i) (parseFloat (1 / 10)) - (100 * of_nat i / of_nat g - 1 / 10)\<bar>
           \<le> 7 / 1000000000"
    and "\<bar>js_add (percentage g i) (parseFloat (1 / 10)) - (100 * of_nat i / of_nat g + 1 / 10)\<bar>
           \<le> 7 / 1000000000"
proof -
  define m :: rat where "m = 100 * of_nat i / of_nat g"
  define p where "p = percentage g i"
  define c where "c = parseFloat (1 / 10)"
  have g0: "(0::rat) < of_nat g" using g by simp
  have "(of_nat i :: rat) \<le> of_nat g" using i by simp
  then have m1: "m \<le> 100" using g0 by (simp add: m_def field_simps)
  have m0: "0 \<le> m" by (simp add: m_def)
  have ep: "\<bar>p - m\<bar> \<le> 6 / 1000000000"
    unfolding p_def m_def by (rule percentage_close [OF g i])
  have ec: "\<bar>c - 1 / 10\<bar> \<le> 1 / 1000000000000" unfolding c_def by (rule tenth_close)
  have "\<bar>p - c\<bar> \<le> 1024" using ep ec m0 m1 by linarith
  then have es: "\<bar>js_sub p c - (p - c)\<bar> \<le> 1 / 1000000000000"
    unfolding js_sub_def by (rule to_double_near)
  have "\<bar>p + c\<bar> \<le> 1024" using ep ec m0 m1 by linarith
  then have ea: "\<bar>js_add p c - (p + c)\<bar> \<le> 1 / 1000000000000"
    unfolding js_add_def by (rule to_double_near)
  show "\<bar>js_sub (percentage g i) (parseFloat (1 / 10)) - (100 * of_nat i / of_nat g - 1 / 10)\<bar>
           \<le> 7 / 1000000000"
    using es ep ec unfolding p_def [symmetric] c_def [symmetric] m_def [symmetric] by linarith
  show "\<bar>js_add (percentage g i) (parseFloat (1 / 10)) - (100 * of_nat i / of_nat g + 1 / 10)\<bar>
           \<le> 7 / 1000000000"
    using ea ep ec unfolding p_def [symmetric] c_def [symmetric] m_def [symmetric] by linarith
qed

lemma in_windowI:
  assumes "1 \<le> g" and "i \<le> g"
    and "\<bar>w - 100 * of_nat i / of_nat g\<bar> \<le> 1 / 10 - 1 / 100000000"
  shows "in_window g w i"
  using window_bounds [OF assms(1,2)] assms(3) unfolding in_window_def by linarith

lemma in_windowD:
  assumes "1 \<le> g" and "i \<le> g" and "in_window g w i"
  shows "\<bar>w - 100 * of_nat i / of_nat g\<bar> \<le> 1 / 10 + 1 / 100000000"
  using window_bounds [OF assms(1,2)] assms(3) unfolding in_window_def by linarith

lemma accepted_from_skip:
  assumes "\<And>j. k < j \<Longrightarrow> j \<le> n \<Longrightarrow> \<not> in_window g w j" and "k \<le> n"
  shows "accepted_from g w n = accepted_from g w k"
  using assms
proof (induction n)
  case 0
  then show ?case by simp
next
  case (Suc n)
  show ?case
  proof (cases "k = Suc n")
    case True
    then show ?thesis by simp
  next
    case False
    then have kn: "k \<le> n" using Suc.prems(2) by simp
    have "\<not> in_window g w (Suc n)" using Suc.prems(1) [of "Suc n"] kn by simp
    then have "accepted_from g w (Suc n) = accepted_from g w n"
      by (simp only: accepted_from_Suc if_False)
    also have "\<dots> = accepted_from g w k"
      using Suc.prems(1) kn by (intro Suc.IH) simp_all
    finally show ?thesis .
  qed
qed

lemma accepted_from_hit:
  assumes "0 < k" and "in_window g w k"
  shows "accepted_from g w k = percentage g k"
proof -
  obtain m where "k = Suc m" using assms(1) by (cases k) simp_all
  then show ?thesis using assms(2) by (simp only: accepted_from_Suc if_True)
qed

lemma accepted_from_cases:
  "accepted_from g w n = 0
   \<or> (\<exists>k. 1 \<le> k \<and> k \<le> n \<and> in_window g w k \<and> accepted_from g w n = percentage g k)"
proof (induction n)
  case 0
  then show ?case by simp
next
  case (Suc n)
  show ?case
  proof (cases "in_window g w (Suc n)")
    case True
    then have "accepted_from g w (Suc n) = percentage g (Suc n)"
      by (simp only: accepted_from_Suc if_True)
    with True show ?thesis by auto
  next
    case False
    then have "accepted_from g w (Suc n) = accepted_from g w n"
      by (simp only: accepted_from_Suc if_False)
    with Suc.IH show ?thesis by (metis le_Suc_eq)
  qed
qed

lemma grid_gap:
  assumes g: "1 \<le> g" and "k < j"
  shows "100 / of_nat g \<le> 100 * of_nat j / of_nat g - 100 * of_nat k / (of_nat g :: rat)"
proof -
  have g0: "(0::rat) < of_nat g" using g by simp
  have "Suc k \<le> j" using assms(2) by simp
  then have "(of_nat (Suc k) :: rat) \<le> of_nat j" by (simp only: of_nat_le_iff)
  then have "(of_nat k :: rat) + 1 \<le> of_nat j" by simp
  then have "100 * ((of_nat k :: rat) + 1) / of_nat g \<le> 100 * of_nat j / of_nat g"
    using g0 by (intro divide_right_mono mult_left_mono) simp_all
  then show ?thesis by (simp add: algebra_simps add_divide_distrib)
qed

lemma accepted_snap:
  assumes g: "1 \<le> g" and k: "1 \<le> k" "k \<le> g"
    and w: "\<bar>w - 100 * of_nat k / of_nat g\<bar> \<le> d"
    and d: "d \<le> 1 / 10 - 1 / 100000000"
    and gap: "d + 1 / 10 + 1 / 100000000 < 100 / of_nat g"
  shows "getAcceptedColumnWidth g w = percentage g k"
proof -
  have out: "\<not> in_window g w j" if "k < j" "j \<le> g" for j
  proof
    assume "in_window g w j"
    then have "\<bar>w - 100 * of_nat j / of_nat g\<bar> \<le> 1 / 10 + 1 / 100000000"
      using g that(2) by (intro in_windowD)
    then show False using grid_gap [OF g that(1)] w gap by linarith
  qed
  have "in_window g w k" using g k(2) w d by (intro in_windowI) simp_all
  then have "accepted_from g w k = percentage g k" using k(1) by (intro accepted_from_hit) simp_all
  moreover have "accepted_from g w g = accepted_from g w k"
    using out k(2) by (intro accepted_from_skip) simp_all
  ultimately show ?thesis by (simp add: getAcceptedColumnWidth_def)
qed

lemma accepted_none:
  assumes g: "1 \<le> g"
    and far: "\<And>j. 1 \<le> j \<Longrightarrow> j \<le> g \<Longrightarrow> 1 / 10 + 1 / 100000000 < \<bar>w - 100 * of_nat j / of_nat g\<bar>"
  shows "getAcceptedColumnWidth g w = 0"
proof -
  have "\<not> in_window g w j" if "0 < j" "j \<le> g" for j
    using in_windowD [OF g that(2), of w] far [of j] that by force
  then have "accepted_from g w g = accepted_from g w 0"
    by (intro accepted_from_skip) simp_all
  then show ?thesis by (simp add: getAcceptedColumnWidth_def)
qed

lemma grid_step_ge:
  assumes "1 \<le> g" and "g \<le> 999"
  shows "(1001 / 10000 :: rat) \<le> 100 / of_nat g"
proof -
  have g0: "(0::rat) < of_nat g" using assms(1) by simp
  have "(of_nat g :: rat) \<le> of_nat 999" using assms(2) by (simp only: of_nat_le_iff)
  then have "(of_nat g :: rat) \<le> 999" by simp
  then have "(100::rat) / 999 \<le> 100 / of_nat g" using g0 by (intro divide_left_mono) simp_all
  then show ?thesis by simp
qed

lemma accepted_percentage:
  assumes "1 \<le> g" and "g \<le> 999" and "1 \<le> k" and "k \<le> g"
  shows "getAcceptedColumnWidth g (percentage g k) = percentage g k"
proof (rule accepted_snap [where d = "6 / 1000000000"])
  show "\<bar>percentage g k - 100 * of_nat k / of_nat g\<bar> \<le> 6 / 1000000000"
    using assms by (intro percentage_close)
  show "(6::rat) / 1000000000 + 1 / 10 + 1 / 100000000 < 100 / of_nat g"
    using grid_step_ge [OF assms(1,2)] by linarith
qed (use assms in simp_all)

lemma accepted_zero:
  assumes "1 \<le> g" and "g \<le> 999"
  shows "getAcceptedColumnWidth g 0 = 0"
proof (rule accepted_none [OF assms(1)])
  fix j :: nat
  assume j: "1 \<le> j" "j \<le> g"
  have "100 / of_nat g \<le> 100 * of_nat j / of_nat g - 100 * of_nat 0 / (of_nat g :: rat)"
    using j by (intro grid_gap [OF assms(1)]) simp
  then show "1 / 10 + 1 / 100000000 < \<bar>0 - 100 * of_nat j / (of_nat g :: rat)\<bar>"
    using grid_step_ge [OF assms] by simp
qed

lemma accepted_range:
  "getAcceptedColumnWidth g w = 0
   \<or> (\<exists>k. 1 \<le> k \<and> k \<le> g \<and> getAcceptedColumnWidth g w = percentage g k)"
  using accepted_from_cases [of g w g] unfolding getAcceptedColumnWidth_def by blast

lemma accepted_idem:
  assumes "1 \<le> g" and "g \<le> 999"
  shows "getAcceptedColumnWidth g (getAcceptedColumnWidth g w) = getAcceptedColumnWidth g w"
  using accepted_range [of g w] accepted_zero [OF assms] accepted_percentage [OF assms]
  by auto

lemma smallest_eq:
  assumes g: "1 \<le> g" and g9: "g \<le> 999"
  shows "getSmallestColumnWidth g = percentage g 1"
proof -
  define r :: rat where "r = 100 / of_nat g"
  define q where "q = js_div 100 (of_nat g)"
  define t where "t = toFixed q (if Math_round q \<noteq> q then 8 else 0)"
  have g0: "(0::rat) < of_nat g" using g by simp
  have "(1::rat) \<le> of_nat g" using g by simp
  then have r1: "r \<le> 100" using g0 by (simp add: r_def field_simps)
  have r0: "0 < r" using g0 by (simp add: r_def)
  have "\<bar>r\<bar> \<le> 1024" using r0 r1 by simp
  then have e1: "\<bar>q - r\<bar> \<le> 1 / 1000000000000"
    unfolding q_def js_div_def r_def by (rule to_double_near)
  have e2: "\<bar>t - q\<bar> \<le> 5 / 1000000000" unfolding t_def by (rule toFixed_near) simp
  have "\<bar>t\<bar> \<le> 1024" using e1 e2 r0 r1 by linarith
  then have e3: "\<bar>parseFloat t - t\<bar> \<le> 1 / 1000000000000"
    unfolding parseFloat_def by (rule to_double_near)
  have "\<bar>parseFloat t - r\<bar> \<le> 6 / 1000000000"
    using e1 e2 e3 by linarith
  then have "\<bar>parseFloat t - 100 * of_nat 1 / of_nat g\<bar> \<le> 6 / 1000000000"
    by (simp add: r_def)
  then have "getAcceptedColumnWidth g (parseFloat t) = percentage g 1"
    using g grid_step_ge [OF g g9] by (intro accepted_snap [where d = "6 / 1000000000"]) simp_all
  then show ?thesis by (simp add: getSmallestColumnWidth_def Let_def t_def q_def)
qed

section \<open>Concrete widths on a grid of twelve\<close>

lemma percentage_12_6: "percentage 12 6 = 50" by code_simp
lemma percentage_12_3: "percentage 12 3 = 25" by code_simp
lemma percentage_12_9: "percentage 12 9 = 75" by code_simp
lemma percentage_12_1: "percentage 12 1 = parseFloat (833333333 / 100000000)" by code_simp
lemma percentage_3_1: "percentage 3 1 = parseFloat (3333333333 / 100000000)" by code_simp
lemma number_33_33333333: "parseFloat (3333333333 / 100000000) \<noteq> 33" by code_simp

lemma accepted_12_50: "getAcceptedColumnWidth 12 50 = 50"
  using accepted_snap [of 12 6 50 0] by (simp add: percentage_12_6)

lemma accepted_12_25: "getAcceptedColumnWidth 12 25 = 25"
  using accepted_snap [of 12 3 25 0] by (simp add: percentage_12_3)

lemma accepted_12_75: "getAcceptedColumnWidth 12 75 = 75"
  using accepted_snap [of 12 9 75 0] by (simp add: percentage_12_9)

lemma smallest_12: "getSmallestColumnWidth 12 = parseFloat (833333333 / 100000000)"
proof -
  have "getSmallestColumnWidth 12 = percentage 12 1" by (rule smallest_eq) simp_all
  then show ?thesis by (simp only: percentage_12_1)
qed

lemma smallest_12_bounds: "8 < getSmallestColumnWidth 12" "getSmallestColumnWidth 12 < 9"
proof -
  have e: "getSmallestColumnWidth 12 = percentage 12 1" by (rule smallest_eq) simp_all
  have "\<bar>percentage 12 1 - 100 * of_nat 1 / of_nat 12\<bar> \<le> 6 / 1000000000"
    by (rule percentage_close) simp_all
  then have "\<bar>getSmallestColumnWidth 12 - 100 / 12\<bar> \<le> 6 / 1000000000"
    by (simp add: e)
  then show "8 < getSmallestColumnWidth 12" "getSmallestColumnWidth 12 < 9" by linarith+
qed

section \<open>Facts about \<open>resizeColumn\<close> and the resize decision\<close>

lemma resizeColumn_None:
  "resizeColumn g st c w None =
     (if getColumnWidth g st c = w \<or> w < getSmallestColumnWidth g then st
      else updateColumnWidth st c w)"
  by (simp add: resizeColumn_def Let_def)

lemma resizeColumn_Some:
  "resizeColumn g st c w (Some sc) =
     (if getColumnWidth g st c = w \<or> w < getSmallestColumnWidth g then st
      else if getColumnWidth g st sc = shrinkableSize g st c w sc
              \<or> shrinkableSize g st c w sc < getSmallestColumnWidth g then st
      else updateColumnWidth (updateColumnWidth st sc (shrinkableSize g st c w sc)) c w)"
  by (simp add: resizeColumn_def Let_def)

text \<open>
  The two \<open>reverse()\<close> calls of the branch that reuses the history: the first read is of
  the last record, the second of the first record, and the history is in its order again.
\<close>

lemma determineAdjustedColumn_reuse_left:
  assumes "currentPos \<ge> js_add (js_sub (offset_left (preview column)) (margin_left (preview column)))
                            (outerWidth_true (preview column))"
    and "ResizeHistory.left history \<noteq> []"
  shows "determineAdjustedColumn gridSize children st preview currentPos column history =
           ((adjustedColumn (last (ResizeHistory.left history)),
             modifyColumnInPair (hd (ResizeHistory.left history)), Some ''left''), history)"
  using assms
  by (simp add: determineAdjustedColumn_def Let_def hd_conv_nth rev_nth last_conv_nth
      hd_rev [symmetric] del: hd_rev)

lemma determineAdjustedColumn_reuse_right:
  assumes "\<not> currentPos \<ge> js_add (js_sub (offset_left (preview column)) (margin_left (preview column)))
                            (outerWidth_true (preview column))"
    and "\<not> getColumnWidth gridSize st column \<le> getSmallestColumnWidth gridSize"
    and "ResizeHistory.right history \<noteq> []"
  shows "determineAdjustedColumn gridSize children st preview currentPos column history =
           ((adjustedColumn (last (ResizeHistory.right history)),
             modifyColumnInPair (hd (ResizeHistory.right history)), Some ''right''), history)"
  using assms
  by (simp add: determineAdjustedColumn_def Let_def hd_conv_nth rev_nth last_conv_nth
      hd_rev [symmetric] del: hd_rev)

lemma handle_three_columns:
  "js_add (js_sub (offset_left (three_columns 1)) (margin_left (three_columns 1)))
          (outerWidth_true (three_columns 1)) = 1000"
  unfolding three_columns_def preview_of_def by code_simp

lemma store_of_50_50: "store_of [50, 50] 0 = 50" "store_of [50, 50] (Suc 0) = 50"
  by (simp_all add: store_of_def)

lemma width_50_50:
  "getColumnWidth 12 (store_of [50, 50]) 0 = 50"
  "getColumnWidth 12 (store_of [50, 50]) (Suc 0) = 50"
  by (simp_all add: getColumnWidth_def store_of_50_50 accepted_12_50)

lemma accepted_12_70: "getAcceptedColumnWidth 12 70 = 0"
proof (rule accepted_none)
  fix j :: nat
  assume "1 \<le> j" "j \<le> 12"
  consider "j \<le> 8" | "9 \<le> j" by linarith
  then show "1 / 10 + 1 / 100000000 < \<bar>70 - 100 * of_nat j / (of_nat 12 :: rat)\<bar>"
  proof cases
    case 1
    then have "(of_nat j :: rat) \<le> of_nat 8" by (simp only: of_nat_le_iff)
    then show ?thesis by simp
  next
    case 2
    then have "(of_nat 9 :: rat) \<le> of_nat j" by (simp only: of_nat_le_iff)
    then show ?thesis by simp
  qed
qed simp

lemma difference_values:
  "toFixed (js_sub 30 50) 8 = - 20"
  "js_add 50 (- parseFloat (- 20)) = 70"
  "toFixed (js_sub 25 50) 8 = - 25"
  "js_add 50 (- parseFloat (- 25)) = 75"
  by code_simp+

lemma shrinkableSize_50_50_30: "shrinkableSize 12 (store_of [50, 50]) 0 30 (Suc 0) = 0"
  by (simp add: shrinkableSize_def difference_def width_50_50 difference_values accepted_12_70)

lemma shrinkableSize_50_50_25: "shrinkableSize 12 (store_of [50, 50]) 0 25 (Suc 0) = 75"
  by (simp add: shrinkableSize_def difference_def width_50_50 difference_values accepted_12_75)

lemma resize_50_50_to_25:
  "resizeColumn 12 (store_of [50, 50]) 0 25 (Some (Suc 0))
   = (store_of [50, 50])(Suc 0 := 75, 0 := 25)"
  using smallest_12_bounds
  by (simp add: resizeColumn_Some shrinkableSize_50_50_25 width_50_50 updateColumnWidth_def)

lemma smallest_3: "getSmallestColumnWidth 3 = parseFloat (3333333333 / 100000000)"
proof -
  have "getSmallestColumnWidth 3 = percentage 3 1" by (rule smallest_eq) simp_all
  then show ?thesis by (simp only: percentage_3_1)
qed

subsection \<open>A grid of 2000 units\<close>

lemma percentage_2000_2000: "percentage 2000 2000 = 100"
  unfolding percentage_def of_nat_numeral by code_simp

lemma percentage_2000_1999: "percentage 2000 1999 = parseFloat (9995 / 100)"
  unfolding percentage_def of_nat_numeral by code_simp

lemma window_2000:
  "\<not> in_window 2000 (parseFloat (9986 / 100)) 2000"
  "in_window 2000 (parseFloat (9986 / 100)) 1999"
  "in_window 2000 (percentage 2000 1999) 2000"
  "percentage 2000 2000 \<noteq> percentage 2000 1999"
  unfolding in_window_def percentage_2000_2000 percentage_2000_1999 by code_simp+

lemma accepted_2000_first:
  "getAcceptedColumnWidth 2000 (parseFloat (9986 / 100)) = percentage 2000 1999"
proof -
  have "accepted_from 2000 (parseFloat (9986 / 100)) 2000
        = accepted_from 2000 (parseFloat (9986 / 100)) 1999"
  proof (rule accepted_from_skip)
    fix j :: nat
    assume "1999 < j" "j \<le> 2000"
    then have "j = 2000" by simp
    then show "\<not> in_window 2000 (parseFloat (9986 / 100)) j" by (simp only: window_2000(1) simp_thms)
  qed simp
  also have "\<dots> = percentage 2000 1999"
    by (rule accepted_from_hit) (simp_all only: window_2000(2) zero_less_numeral)
  finally show ?thesis by (simp only: getAcceptedColumnWidth_def)
qed

lemma accepted_2000_second:
  "getAcceptedColumnWidth 2000 (percentage 2000 1999) = percentage 2000 2000"
  unfolding getAcceptedColumnWidth_def
  by (rule accepted_from_hit) (simp_all only: window_2000(3) zero_less_numeral)

section \<open>Resizing a row of grid percentages\<close>

lemma grid_exact_add:
  "100 * of_nat (a + b) / (of_nat g :: rat) = 100 * of_nat a / of_nat g + 100 * of_nat b / of_nat g"
  by (simp add: algebra_simps add_divide_distrib)

lemma grid_exact_mono:
  assumes "a \<le> b"
  shows "100 * of_nat a / (of_nat g :: rat) \<le> 100 * of_nat b / of_nat g"
proof -
  have "(of_nat a :: rat) \<le> of_nat b" using assms by (simp only: of_nat_le_iff)
  then show ?thesis by (intro divide_right_mono mult_left_mono) simp_all
qed

lemma grid_exact_one: "100 * of_nat 1 / (of_nat g :: rat) = 100 / of_nat g"
  by simp

text \<open>The argument of \<open>getAcceptedColumnWidth\<close> in \<open>shrinkableSize\<close>, on grid widths.\<close>

lemma shrink_argument_close:
  assumes g: "1 \<le> g" and k: "kc \<le> g" "kd \<le> g" "k' \<le> g"
  shows "\<bar>js_add (percentage g kd)
            (- parseFloat (toFixed (js_sub (percentage g k') (percentage g kc)) 8))
         - (100 * of_nat kd / of_nat g + 100 * of_nat kc / of_nat g - 100 * of_nat k' / of_nat g)\<bar>
         \<le> 3 / 100000000"
proof -
  define a where "a = percentage g k'"
  define b where "b = percentage g kc"
  define p where "p = percentage g kd"
  define A :: rat where "A = 100 * of_nat k' / of_nat g"
  define B :: rat where "B = 100 * of_nat kc / of_nat g"
  define P :: rat where "P = 100 * of_nat kd / of_nat g"
  have g0: "(0::rat) < of_nat g" using g by simp
  have range: "0 \<le> 100 * of_nat n / (of_nat g :: rat) \<and> 100 * of_nat n / (of_nat g :: rat) \<le> 100"
    if "n \<le> g" for n
  proof -
    have "(of_nat n :: rat) \<le> of_nat g" using that by (simp only: of_nat_le_iff)
    then have "100 * (of_nat n :: rat) / of_nat g \<le> 100" using g0 by (simp add: field_simps)
    then show ?thesis by simp
  qed
  have rA: "0 \<le> A" "A \<le> 100" using range [OF k(3)] by (simp_all add: A_def)
  have rB: "0 \<le> B" "B \<le> 100" using range [OF k(1)] by (simp_all add: B_def)
  have rP: "0 \<le> P" "P \<le> 100" using range [OF k(2)] by (simp_all add: P_def)
  have ea: "\<bar>a - A\<bar> \<le> 6 / 1000000000" unfolding a_def A_def by (rule percentage_close [OF g k(3)])
  have eb: "\<bar>b - B\<bar> \<le> 6 / 1000000000" unfolding b_def B_def by (rule percentage_close [OF g k(1)])
  have ep: "\<bar>p - P\<bar> \<le> 6 / 1000000000" unfolding p_def P_def by (rule percentage_close [OF g k(2)])
  define s where "s = js_sub a b"
  have "\<bar>a - b\<bar> \<le> 1024" using ea eb rA rB by linarith
  then have es: "\<bar>s - (a - b)\<bar> \<le> 1 / 1000000000000"
    unfolding s_def js_sub_def by (rule to_double_near)
  define t where "t = toFixed s 8"
  have et: "\<bar>t - s\<bar> \<le> 5 / 1000000000" using toFixed_err [of s 8] by (simp add: t_def)
  define f where "f = parseFloat t"
  have "\<bar>t\<bar> \<le> 1024" using et es ea eb rA rB by linarith
  then have ef: "\<bar>f - t\<bar> \<le> 1 / 1000000000000"
    unfolding f_def parseFloat_def by (rule to_double_near)
  define r where "r = js_add p (- f)"
  have "\<bar>p + - f\<bar> \<le> 1024" using ef et es ea eb ep rA rB rP by linarith
  then have er: "\<bar>r - (p + - f)\<bar> \<le> 1 / 1000000000000"
    unfolding r_def js_add_def by (rule to_double_near)
  have "\<bar>r - (P + B - A)\<bar> \<le> 3 / 100000000"
    using er ef et es ea eb ep by linarith
  then show ?thesis
    by (simp only: r_def f_def t_def s_def a_def b_def p_def A_def B_def P_def)
qed

lemma smallest_pos:
  assumes "1 \<le> g" and "g \<le> 999"
  shows "0 < getSmallestColumnWidth g"
proof -
  have "\<bar>percentage g 1 - 100 * of_nat 1 / of_nat g\<bar> \<le> 6 / 1000000000"
    using assms by (intro percentage_close) simp_all
  then have "\<bar>percentage g 1 - 100 / of_nat g\<bar> \<le> 6 / 1000000000" by simp
  then have "0 < percentage g 1" using grid_step_ge [OF assms] by linarith
  then show ?thesis by (simp only: smallest_eq [OF assms])
qed

lemma shrinkableSize_on_grid:
  assumes g: "1 \<le> g" "g \<le> 999"
    and kc: "1 \<le> kc" "kc \<le> g" and kd: "1 \<le> kd" "kd \<le> g" and k': "1 \<le> k'" "k' \<le> g"
    and c: "st c = percentage g kc" and sc: "st sc = percentage g kd"
  shows "shrinkableSize g st c (percentage g k') sc =
           (if k' < kd + kc \<and> kd + kc - k' \<le> g then percentage g (kd + kc - k') else 0)"
proof -
  define arg where "arg = js_add (percentage g kd)
     (- parseFloat (toFixed (js_sub (percentage g k') (percentage g kc)) 8))"
  define T :: rat where
    "T = 100 * of_nat kd / of_nat g + 100 * of_nat kc / of_nat g - 100 * of_nat k' / of_nat g"
  have close: "\<bar>arg - T\<bar> \<le> 3 / 100000000"
    unfolding arg_def T_def by (rule shrink_argument_close [OF g(1) kc(2) kd(2) k'(2)])
  have step: "(1001 / 10000 :: rat) \<le> 100 / of_nat g" by (rule grid_step_ge [OF g])
  have wc: "getColumnWidth g st c = percentage g kc"
    by (simp add: getColumnWidth_def c accepted_percentage [OF g kc])
  have wd: "getColumnWidth g st sc = percentage g kd"
    by (simp add: getColumnWidth_def sc accepted_percentage [OF g kd])
  have size: "shrinkableSize g st c (percentage g k') sc = getAcceptedColumnWidth g arg"
    by (simp add: shrinkableSize_def difference_def wc wd arg_def)
  have sum: "100 * of_nat (kd + kc) / (of_nat g :: rat) = T + 100 * of_nat k' / of_nat g"
    unfolding T_def grid_exact_add by simp
  show ?thesis
  proof (cases "k' < kd + kc \<and> kd + kc - k' \<le> g")
    case True
    define m where "m = kd + kc - k'"
    have m: "1 \<le> m" "m \<le> g" "kd + kc = m + k'" using True unfolding m_def by linarith+
    have "100 * of_nat (kd + kc) / (of_nat g :: rat)
          = 100 * of_nat m / of_nat g + 100 * of_nat k' / of_nat g"
      by (simp only: m(3) grid_exact_add)
    then have "T = 100 * of_nat m / of_nat g" using sum by linarith
    then have "\<bar>arg - 100 * of_nat m / of_nat g\<bar> \<le> 3 / 100000000" using close by simp
    then have "getAcceptedColumnWidth g arg = percentage g m"
      using g(1) m(1,2) step by (intro accepted_snap [where d = "3 / 100000000"]) simp_all
    then show ?thesis using True by (simp add: size m_def)
  next
    case False
    have "getAcceptedColumnWidth g arg = 0"
    proof (rule accepted_none [OF g(1)])
      fix j :: nat
      assume j: "1 \<le> j" "j \<le> g"
      have j1: "100 / of_nat g \<le> 100 * of_nat j / (of_nat g :: rat)"
        using grid_exact_mono [OF j(1), of g] by simp
      from False consider "kd + kc \<le> k'" | "k' + j + 1 \<le> kd + kc" using j(2) by linarith
      then show "1 / 10 + 1 / 100000000 < \<bar>arg - 100 * of_nat j / of_nat g\<bar>"
      proof cases
        case 1
        have "100 * of_nat (kd + kc) / (of_nat g :: rat) \<le> 100 * of_nat k' / of_nat g"
          by (rule grid_exact_mono [OF 1])
        then have "T \<le> 0" using sum by linarith
        then show ?thesis using close j1 step by linarith
      next
        case 2
        have "100 * of_nat (k' + j + 1) / (of_nat g :: rat) \<le> 100 * of_nat (kd + kc) / of_nat g"
          by (rule grid_exact_mono [OF 2])
        moreover have "100 * of_nat (k' + j + 1) / (of_nat g :: rat)
          = 100 * of_nat k' / of_nat g + 100 * of_nat j / of_nat g + 100 / of_nat g"
          by (simp only: grid_exact_add grid_exact_one)
        ultimately have "100 * of_nat j / of_nat g + 100 / of_nat g \<le> T" using sum by linarith
        then show ?thesis using close step by linarith
      qed
    qed
    then show ?thesis using False by (auto simp: size)
  qed
qed

lemma resizeColumn_on_grid:
  assumes g: "1 \<le> g" "g \<le> 999"
    and kc: "1 \<le> kc" "kc \<le> g" and kd: "1 \<le> kd" "kd \<le> g" and k': "1 \<le> k'" "k' \<le> g"
    and c: "st c = percentage g kc" and sc: "st sc = percentage g kd"
  shows "resizeColumn g st c (percentage g k') (Some sc) = st
         \<or> (k' < kd + kc \<and> kd + kc - k' \<le> g
            \<and> resizeColumn g st c (percentage g k') (Some sc)
                = st(sc := percentage g (kd + kc - k'), c := percentage g k'))"
proof (cases "k' < kd + kc \<and> kd + kc - k' \<le> g")
  case True
  have "shrinkableSize g st c (percentage g k') sc =
          (if k' < kd + kc \<and> kd + kc - k' \<le> g then percentage g (kd + kc - k') else 0)"
    by (rule shrinkableSize_on_grid [OF assms])
  also have "\<dots> = percentage g (kd + kc - k')" using True by simp
  finally have "shrinkableSize g st c (percentage g k') sc = percentage g (kd + kc - k')" .
  then show ?thesis using True by (simp add: resizeColumn_Some updateColumnWidth_def)
next
  case False
  have "shrinkableSize g st c (percentage g k') sc =
          (if k' < kd + kc \<and> kd + kc - k' \<le> g then percentage g (kd + kc - k') else 0)"
    by (rule shrinkableSize_on_grid [OF assms])
  also have "\<dots> = 0" using False by auto
  finally have "shrinkableSize g st c (percentage g k') sc = 0" .
  then show ?thesis using smallest_pos [OF g] by (simp add: resizeColumn_Some)
qed

lemma percentage_less:
  assumes g: "1 \<le> g" "g \<le> 999" and jk: "j < k" "k \<le> g"
  shows "percentage g j < percentage g k"
proof -
  have j: "j \<le> g" using jk by simp
  have "\<bar>percentage g j - 100 * of_nat j / of_nat g\<bar> \<le> 6 / 1000000000"
    by (rule percentage_close [OF g(1) j])
  moreover have "\<bar>percentage g k - 100 * of_nat k / of_nat g\<bar> \<le> 6 / 1000000000"
    by (rule percentage_close [OF g(1) jk(2)])
  moreover have "100 / of_nat g \<le> 100 * of_nat k / of_nat g - 100 * of_nat j / (of_nat g :: rat)"
    by (rule grid_gap [OF g(1) jk(1)])
  ultimately show ?thesis using grid_step_ge [OF g] by linarith
qed

lemma percentage_eq_iff:
  assumes g: "1 \<le> g" "g \<le> 999" and "j \<le> g" and "k \<le> g"
  shows "percentage g j = percentage g k \<longleftrightarrow> j = k"
proof
  assume eq: "percentage g j = percentage g k"
  show "j = k"
  proof (rule ccontr)
    assume "j \<noteq> k"
    then consider "j < k" | "k < j" by linarith
    then show False
      using percentage_less [OF g, of j k] percentage_less [OF g, of k j] assms(3,4) eq
      by cases simp_all
  qed
qed simp

lemma smallest_le_percentage:
  assumes g: "1 \<le> g" "g \<le> 999" and k: "1 \<le> k" "k \<le> g"
  shows "\<not> percentage g k < getSmallestColumnWidth g"
proof (cases "k = 1")
  case True
  then show ?thesis by (simp add: smallest_eq [OF g])
next
  case False
  then have "1 < k" using k(1) by simp
  then have "percentage g 1 < percentage g k" using k(2) by (intro percentage_less [OF g])
  then show ?thesis by (simp add: smallest_eq [OF g])
qed

text \<open>What \<open>resizeColumn\<close> does on grid percentages, in grid units.\<close>

lemma resizeColumn_on_grid_exact:
  assumes g: "1 \<le> g" "g \<le> 999"
    and kc: "1 \<le> kc" "kc \<le> g" and kd: "1 \<le> kd" "kd \<le> g" and k': "1 \<le> k'" "k' \<le> g"
    and c: "st c = percentage g kc" and sc: "st sc = percentage g kd"
  shows "resizeColumn g st c (percentage g k') (Some sc) =
           (if k' = kc \<or> \<not> (k' < kd + kc \<and> kd + kc - k' \<le> g) then st
            else st(sc := percentage g (kd + kc - k'), c := percentage g k'))"
proof -
  have wc: "getColumnWidth g st c = percentage g kc"
    by (simp add: getColumnWidth_def c accepted_percentage [OF g kc])
  have wd: "getColumnWidth g st sc = percentage g kd"
    by (simp add: getColumnWidth_def sc accepted_percentage [OF g kd])
  have size: "shrinkableSize g st c (percentage g k') sc =
          (if k' < kd + kc \<and> kd + kc - k' \<le> g then percentage g (kd + kc - k') else 0)"
    by (rule shrinkableSize_on_grid [OF assms])
  have same: "percentage g kc = percentage g k' \<longleftrightarrow> k' = kc"
    using percentage_eq_iff [OF g kc(2) k'(2)] by auto
  have w: "\<not> percentage g k' < getSmallestColumnWidth g"
    by (rule smallest_le_percentage [OF g k'])
  show ?thesis
  proof (cases "k' = kc")
    case True
    then show ?thesis by (simp add: resizeColumn_Some wc)
  next
    case diff: False
    show ?thesis
    proof (cases "k' < kd + kc \<and> kd + kc - k' \<le> g")
      case True
      define m where "m = kd + kc - k'"
      have m: "1 \<le> m" "m \<le> g" "m \<noteq> kd" using True diff unfolding m_def by linarith+
      have sz: "shrinkableSize g st c (percentage g k') sc = percentage g m"
        using size True by (simp add: m_def)
      have "percentage g kd \<noteq> percentage g m"
        using percentage_eq_iff [OF g kd(2) m(2)] m(3) by simp
      moreover have "\<not> percentage g m < getSmallestColumnWidth g"
        by (rule smallest_le_percentage [OF g m(1,2)])
      ultimately show ?thesis
        using True diff same w
        by (simp add: resizeColumn_Some wc wd sz updateColumnWidth_def m_def)
    next
      case False
      have "shrinkableSize g st c (percentage g k') sc = 0" using size False by auto
      then show ?thesis
        using False smallest_pos [OF g] by (simp add: resizeColumn_Some)
    qed
  qed
qed

lemma sum_list_upd_absent:
  "c \<notin> set xs \<Longrightarrow> sum_list (map (f(c := v)) xs) = sum_list (map f xs)"
  by (induction xs) auto

lemma sum_list_upd_present:
  fixes f :: "'a \<Rightarrow> rat"
  assumes "distinct xs" and "c \<in> set xs"
  shows "sum_list (map (f(c := v)) xs) = sum_list (map f xs) - f c + v"
  using assms
proof (induction xs)
  case Nil
  then show ?case by simp
next
  case (Cons x xs)
  show ?case
  proof (cases "x = c")
    case True
    then have "c \<notin> set xs" using Cons.prems(1) by simp
    then have "sum_list (map (f(c := v)) xs) = sum_list (map f xs)"
      by (rule sum_list_upd_absent)
    moreover have "sum_list (map (f(c := v)) (x # xs)) = v + sum_list (map (f(c := v)) xs)"
      using True by simp
    moreover have "sum_list (map f (x # xs)) = f c + sum_list (map f xs)"
      using True by simp
    ultimately show ?thesis by linarith
  next
    case False
    then have "c \<in> set xs" "distinct xs" using Cons.prems by simp_all
    then have "sum_list (map (f(c := v)) xs) = sum_list (map f xs) - f c + v"
      by (intro Cons.IH)
    moreover have "sum_list (map (f(c := v)) (x # xs)) = f x + sum_list (map (f(c := v)) xs)"
      using False by simp
    moreover have "sum_list (map f (x # xs)) = f x + sum_list (map f xs)" by simp
    ultimately show ?thesis by linarith
  qed
qed

lemma sum_on_grid_close:
  assumes g: "1 \<le> g"
    and u: "\<forall>x \<in> set xs. u x \<le> g \<and> s x = percentage g (u x)"
  shows "\<bar>sum_list (map s xs) - 100 * sum_list (map (\<lambda>x. of_nat (u x)) xs) / of_nat g\<bar>
         \<le> of_nat (length xs) * (5003 / 1000000000000)"
  using u
proof (induction xs)
  case Nil
  then show ?case by simp
next
  case (Cons x xs)
  have e: "\<bar>s x - 100 * of_nat (u x) / of_nat g\<bar> \<le> 5003 / 1000000000000"
    using Cons.prems percentage_close_tight [OF g, of "u x"] by simp
  have ih: "\<bar>sum_list (map s xs) - 100 * sum_list (map (\<lambda>x. of_nat (u x)) xs) / of_nat g\<bar>
         \<le> of_nat (length xs) * (5003 / 1000000000000)"
    using Cons.prems by (intro Cons.IH) simp
  have "100 * sum_list (map (\<lambda>x. of_nat (u x)) (x # xs)) / (of_nat g :: rat)
        = 100 * of_nat (u x) / of_nat g + 100 * sum_list (map (\<lambda>x. of_nat (u x)) xs) / of_nat g"
    by (simp add: algebra_simps add_divide_distrib)
  moreover have "(of_nat (length (x # xs)) :: rat) * (5003 / 1000000000000)
        = 5003 / 1000000000000 + of_nat (length xs) * (5003 / 1000000000000)"
    by (simp add: algebra_simps)
  moreover have "sum_list (map s (x # xs)) = s x + sum_list (map s xs)" by simp
  ultimately show ?case using e ih by linarith
qed

lemma length_le_units:
  assumes "\<forall>x \<in> set xs. 1 \<le> u x"
  shows "(of_nat (length xs) :: rat) \<le> sum_list (map (\<lambda>x. of_nat (u x)) xs)"
  using assms
proof (induction xs)
  case Nil
  then show ?case by simp
next
  case (Cons x xs)
  have "(1::rat) \<le> of_nat (u x)" using Cons.prems by simp
  moreover have "(of_nat (length xs) :: rat) \<le> sum_list (map (\<lambda>x. of_nat (u x)) xs)"
    using Cons.prems by (intro Cons.IH) simp
  ultimately show ?case by simp
qed

lemma units_sum_of_nat:
  "sum_list (map (\<lambda>x. of_nat (u x)) xs) = (of_nat (sum_list (map u xs)) :: rat)"
  by (induction xs) simp_all

text \<open>A row of grid percentages that sums to 100 within the tolerance has \<open>g\<close> grid units.\<close>

lemma units_are_grid_size:
  assumes g: "1 \<le> g" "g \<le> 999"
    and u: "\<forall>x \<in> set xs. 1 \<le> u x \<and> u x \<le> g \<and> s x = percentage g (u x)"
    and tol: "\<bar>sum_list (map s xs) - 100\<bar> \<le> 1 / 1000000"
  shows "sum_list (map u xs) = g"
proof -
  define n0 where "n0 = sum_list (map u xs)"
  define U :: rat where "U = of_nat n0"
  define G :: rat where "G = of_nat g"
  define N :: rat where "N = of_nat (length xs)"
  define r :: rat where "r = 100 / G"
  have G: "1 \<le> G" "G \<le> 999" using g by (simp_all add: G_def)
  have r1: "1001 / 10000 \<le> r" using grid_step_ge [OF g] by (simp add: r_def G_def)
  have rG: "r * G = 100" using G by (simp add: r_def)
  have U0: "0 \<le> U" by (simp add: U_def)
  have N0: "0 \<le> N" by (simp add: N_def)
  have NU: "N \<le> U"
    using length_le_units [of xs u] u by (simp add: N_def U_def n0_def units_sum_of_nat)
  have "\<bar>sum_list (map s xs) - 100 * sum_list (map (\<lambda>x. of_nat (u x)) xs) / of_nat g\<bar>
         \<le> of_nat (length xs) * (5003 / 1000000000000)"
    using u by (intro sum_on_grid_close [OF g(1)]) simp
  then have e: "\<bar>sum_list (map s xs) - r * U\<bar> \<le> N * (5003 / 1000000000000)"
    by (simp add: units_sum_of_nat U_def n0_def G_def N_def r_def)
  have "n0 = g"
  proof (rule ccontr)
    assume "n0 \<noteq> g"
    then consider "g + 1 \<le> n0" | "n0 + 1 \<le> g" by linarith
    then show False
    proof cases
      case 1
      then have "(of_nat (g + 1) :: rat) \<le> of_nat n0" by (simp only: of_nat_le_iff)
      then have d: "1 \<le> U - G" by (simp add: U_def G_def)
      define z where "z = (r - 1 / 10) * (U - G)"
      have "(r - 1 / 10) * 1 \<le> (r - 1 / 10) * (U - G)"
        using d r1 by (intro mult_left_mono) simp_all
      then have z1: "r - 1 / 10 \<le> z" by (simp add: z_def)
      have z2: "z = r * U - r * G - U / 10 + G / 10"
        by (simp add: z_def left_diff_distrib right_diff_distrib)
      have "r - 1 / 10 + U / 10 - G / 10 \<le> r * U - 100"
        using z1 z2 rG by linarith
      moreover have "r * U \<le> 100 + 1 / 1000000 + U * (5003 / 1000000000000)"
        using e tol NU by linarith
      ultimately have "r - 1 / 10 + U / 10 - G / 10 \<le> 1 / 1000000 + U * (5003 / 1000000000000)"
        by linarith
      then show False using d G r1 by linarith
    next
      case 2
      then have "(of_nat (n0 + 1) :: rat) \<le> of_nat g" by (simp only: of_nat_le_iff)
      then have d: "1 \<le> G - U" by (simp add: U_def G_def)
      have "r * 1 \<le> r * (G - U)" using d r1 by (intro mult_left_mono) simp_all
      then have "r \<le> 100 - r * U" using rG by (simp add: right_diff_distrib)
      moreover have "100 - 1 / 1000000 - U * (5003 / 1000000000000) \<le> r * U"
        using e tol NU by linarith
      ultimately have "r \<le> 1 / 1000000 + U * (5003 / 1000000000000)" by linarith
      then show False using d G r1 U0 by linarith
    qed
  qed
  then show ?thesis by (simp add: n0_def)
qed

text \<open>
  A row of at most 199 grid percentages with \<open>g\<close> grid units sums to 100 within the
  tolerance: each percentage is within \<open>0.000000005003\<close> of its exact value.
\<close>

lemma grid_row_sum:
  assumes g: "1 \<le> g"
    and n: "length xs \<le> 199"
    and u: "\<forall>x \<in> set xs. 1 \<le> u x \<and> u x \<le> g \<and> s x = percentage g (u x)"
    and units: "sum_list (map u xs) = g"
  shows "\<bar>sum_list (map s xs) - 100\<bar> \<le> 1 / 1000000"
proof -
  define N :: rat where "N = of_nat (length xs)"
  have "(of_nat (length xs) :: rat) \<le> of_nat 199" using n by (simp only: of_nat_le_iff)
  then have N: "N \<le> 199" by (simp add: N_def)
  have "\<bar>sum_list (map s xs) - 100 * sum_list (map (\<lambda>x. of_nat (u x)) xs) / of_nat g\<bar>
         \<le> of_nat (length xs) * (5003 / 1000000000000)"
    using u by (intro sum_on_grid_close [OF g]) simp
  moreover have "100 * sum_list (map (\<lambda>x. of_nat (u x)) xs) / (of_nat g :: rat) = 100"
    using g by (simp add: units_sum_of_nat units)
  ultimately have "\<bar>sum_list (map s xs) - 100\<bar> \<le> N * (5003 / 1000000000000)"
    by (simp add: N_def)
  then show ?thesis using N by linarith
qed

lemma on_grid_iff: "on_grid g w \<longleftrightarrow> (\<exists>k. 1 \<le> k \<and> k \<le> g \<and> w = percentage g k)"
  by (auto simp: on_grid_def)

lemma resize_row_invariant:
  assumes g: "1 \<le> g" "g \<le> 999"
    and small: "g \<le> 199 \<or> length children \<le> 199"
    and row: "distinct children" "c \<in> set children" "sc \<in> set children" "sc \<noteq> c"
    and grid: "\<forall>x \<in> set children. on_grid g (st x)"
    and w: "on_grid g w"
    and tol: "\<bar>sum_list (map st children) - 100\<bar> \<le> 1 / 1000000"
  shows "(\<forall>x \<in> set children. on_grid g (resizeColumn g st c w (Some sc) x))
         \<and> \<bar>sum_list (map (resizeColumn g st c w (Some sc)) children) - 100\<bar> \<le> 1 / 1000000"
proof -
  have g9: "g \<le> 999" by (rule g(2))
  have "\<forall>x \<in> set children. \<exists>k. 1 \<le> k \<and> k \<le> g \<and> st x = percentage g k"
    using grid by (simp add: on_grid_iff)
  then have "\<exists>u. \<forall>x \<in> set children. 1 \<le> u x \<and> u x \<le> g \<and> st x = percentage g (u x)"
    by (rule bchoice)
  then obtain u where u: "\<forall>x \<in> set children. 1 \<le> u x \<and> u x \<le> g \<and> st x = percentage g (u x)"
    by blast
  obtain k' where k': "1 \<le> k'" "k' \<le> g" "w = percentage g k'"
    using w by (auto simp: on_grid_iff)
  have uc: "1 \<le> u c" "u c \<le> g" "st c = percentage g (u c)" using u row(2) by simp_all
  have ud: "1 \<le> u sc" "u sc \<le> g" "st sc = percentage g (u sc)" using u row(3) by simp_all
  have units: "sum_list (map u children) = g"
    by (rule units_are_grid_size [OF g u tol])
  have "(of_nat (length children) :: rat) \<le> sum_list (map (\<lambda>x. of_nat (u x)) children)"
    using u by (intro length_le_units) simp
  then have "(of_nat (length children) :: rat) \<le> of_nat g"
    by (simp only: units_sum_of_nat units)
  then have "length children \<le> g" by (simp only: of_nat_le_iff)
  then have len: "length children \<le> 199" using small by linarith
  define st' where "st' = resizeColumn g st c w (Some sc)"
  have "st' = st
        \<or> (k' < u sc + u c \<and> u sc + u c - k' \<le> g
           \<and> st' = st(sc := percentage g (u sc + u c - k'), c := percentage g k'))"
    unfolding st'_def k'(3)
    by (rule resizeColumn_on_grid [OF g(1) g9 uc(1,2) ud(1,2) k'(1,2) uc(3) ud(3)])
  then have "(\<forall>x \<in> set children. on_grid g (st' x))
             \<and> \<bar>sum_list (map st' children) - 100\<bar> \<le> 1 / 1000000"
  proof
    assume "st' = st"
    then show ?thesis using grid tol by simp
  next
    assume commit: "k' < u sc + u c \<and> u sc + u c - k' \<le> g
           \<and> st' = st(sc := percentage g (u sc + u c - k'), c := percentage g k')"
    define m where "m = u sc + u c - k'"
    have m: "1 \<le> m" "m \<le> g" "m + k' = u sc + u c" using commit unfolding m_def by linarith+
    have st': "st' = st(sc := percentage g m, c := percentage g k')"
      using commit by (simp add: m_def)
    define u' where "u' = u(sc := m, c := k')"
    have u': "\<forall>x \<in> set children. 1 \<le> u' x \<and> u' x \<le> g \<and> st' x = percentage g (u' x)"
      using u m(1,2) k'(1,2) by (simp add: u'_def st')
    have "(\<lambda>x. of_nat (u' x) :: rat) = (\<lambda>x. of_nat (u x))(sc := of_nat m, c := of_nat k')"
      by (auto simp: u'_def)
    then have "sum_list (map (\<lambda>x. of_nat (u' x) :: rat) children)
          = sum_list (map ((\<lambda>x. of_nat (u x))(sc := of_nat m)) children)
            - ((\<lambda>x. of_nat (u x))(sc := of_nat m)) c + of_nat k'"
      using sum_list_upd_present [OF row(1,2)] by simp
    also have "\<dots> = sum_list (map (\<lambda>x. of_nat (u x)) children) - of_nat (u sc) + of_nat m
                     - of_nat (u c) + of_nat k'"
      using sum_list_upd_present [OF row(1,3), of "\<lambda>x. of_nat (u x)" "of_nat m"] row(4)
      by simp
    also have "\<dots> = sum_list (map (\<lambda>x. of_nat (u x)) children)"
    proof -
      have "(of_nat (m + k') :: rat) = of_nat (u sc + u c)" by (simp only: m(3))
      then show ?thesis by simp
    qed
    finally have "(of_nat (sum_list (map u' children)) :: rat) = of_nat (sum_list (map u children))"
      by (simp only: units_sum_of_nat)
    then have "sum_list (map u' children) = sum_list (map u children)"
      by (simp only: of_nat_eq_iff)
    then have units': "sum_list (map u' children) = g" by (simp only: units)
    have "\<bar>sum_list (map st' children) - 100\<bar> \<le> 1 / 1000000"
      by (rule grid_row_sum [OF g(1) len u' units'])
    moreover have "\<forall>x \<in> set children. on_grid g (st' x)"
      using u' by (auto simp: on_grid_iff)
    ultimately show ?thesis by simp
  qed
  then show ?thesis unfolding st'_def .
qed

lemma on_grid_12: "on_grid 12 50" "on_grid 12 25" "on_grid 12 75"
proof -
  have "1 \<le> (6::nat) \<and> (6::nat) \<le> 12 \<and> 50 = percentage 12 6"
    by (simp add: percentage_12_6)
  then show "on_grid 12 50" unfolding on_grid_iff by (rule exI)
  have "1 \<le> (3::nat) \<and> (3::nat) \<le> 12 \<and> 25 = percentage 12 3"
    by (simp add: percentage_12_3)
  then show "on_grid 12 25" unfolding on_grid_iff by (rule exI)
  have "1 \<le> (9::nat) \<and> (9::nat) \<le> 12 \<and> 75 = percentage 12 9"
    by (simp add: percentage_12_9)
  then show "on_grid 12 75" unfolding on_grid_iff by (rule exI)
qed

lemma resize_50_50_alone:
  "resizeColumn 12 (store_of [50, 50]) 0 75 None = (store_of [50, 50])(0 := 75)"
  using smallest_12_bounds by (simp add: resizeColumn_None width_50_50 updateColumnWidth_def)

subsection \<open>Calls outside the hypotheses of the row invariant\<close>

text \<open>
  With the dragged column itself as the shrinkable column, the second write undoes the
  first and the row \<open>[50, 50]\<close> becomes \<open>[25, 50]\<close>. With the target width 33.4, which
  is not a grid percentage, the shrinkable column snaps to 66.66666667 and the row sums
  to more than 100.01.
\<close>

lemma resize_with_itself:
  "resizeColumn 12 (store_of [50, 50]) 0 25 (Some 0) = (store_of [50, 50])(0 := 25)"
proof -
  have "shrinkableSize 12 (store_of [50, 50]) 0 25 0 = 75"
    by (simp add: shrinkableSize_def difference_def width_50_50 difference_values accepted_12_75)
  then show ?thesis
    using smallest_12_bounds
    by (simp add: resizeColumn_Some width_50_50 updateColumnWidth_def)
qed

lemma off_grid_values:
  "parseFloat (167 / 5) \<noteq> 50"
  "toFixed (js_sub (parseFloat (167 / 5)) 50) 8 = - (83 / 5)"
  "\<bar>js_add 50 (- parseFloat (- (83 / 5))) - 100 * of_nat 8 / of_nat 12\<bar> \<le> 7 / 100"
  "33 < parseFloat (167 / 5)"
  by code_simp+

lemma shrinkableSize_off_grid:
  "shrinkableSize 12 (store_of [50, 50]) 0 (parseFloat (167 / 5)) (Suc 0) = percentage 12 8"
proof -
  have "getAcceptedColumnWidth 12 (js_add 50 (- parseFloat (- (83 / 5)))) = percentage 12 8"
    using off_grid_values(3) by (intro accepted_snap [where d = "7 / 100"]) simp_all
  then show ?thesis
    by (simp add: shrinkableSize_def difference_def width_50_50 off_grid_values(2))
qed

lemma percentage_12_8_bounds: "66 < percentage 12 8" "percentage 12 8 < 67"
proof -
  have "\<bar>percentage 12 8 - 100 * of_nat 8 / of_nat 12\<bar> \<le> 6 / 1000000000"
    by (rule percentage_close) simp_all
  then have "\<bar>percentage 12 8 - 800 / 12\<bar> \<le> 6 / 1000000000" by simp
  then show "66 < percentage 12 8" "percentage 12 8 < 67" by linarith+
qed

lemma resize_off_grid:
  "resizeColumn 12 (store_of [50, 50]) 0 (parseFloat (167 / 5)) (Some (Suc 0))
   = (store_of [50, 50])(Suc 0 := percentage 12 8, 0 := parseFloat (167 / 5))"
  using smallest_12_bounds percentage_12_8_bounds off_grid_values(1,4)
  by (simp add: resizeColumn_Some shrinkableSize_off_grid width_50_50 updateColumnWidth_def)

lemma resize_off_grid_sum:
  "\<not> \<bar>sum_list (map (resizeColumn 12 (store_of [50, 50]) 0 (parseFloat (167 / 5)) (Some 1))
                      [0, 1]) - 100\<bar> \<le> 1 / 100"
proof -
  have "\<bar>parseFloat (167 / 5) - 167 / 5\<bar> \<le> 1 / 1000000000000"
    unfolding parseFloat_def by (rule to_double_near) simp
  moreover have "\<bar>percentage 12 8 - 100 * of_nat 8 / of_nat 12\<bar> \<le> 6 / 1000000000"
    by (rule percentage_close) simp_all
  then have "\<bar>percentage 12 8 - 800 / 12\<bar> \<le> 6 / 1000000000" by simp
  ultimately have "1 / 100 < parseFloat (167 / 5) + percentage 12 8 - 100" by linarith
  then show ?thesis by (simp add: resize_off_grid)
qed

text \<open>
  The result of the loop when the width is in the window of \<open>k\<close>, not in the window of
  \<open>k + 1\<close>, and below the windows from \<open>k + 2\<close> on.
\<close>

lemma accepted_at:
  assumes g: "1 \<le> g" and k: "1 \<le> k" "k \<le> g"
    and hit: "in_window g w k" and miss: "\<not> in_window g w (Suc k)"
    and far: "w + 1 / 10 + 1 / 100000000 < 100 * of_nat (k + 2) / of_nat g"
  shows "getAcceptedColumnWidth g w = percentage g k"
proof -
  have out: "\<not> in_window g w j" if "k < j" "j \<le> g" for j
  proof (cases "j = Suc k")
    case True
    then show ?thesis using miss by simp
  next
    case False
    then have "k + 2 \<le> j" using that(1) by simp
    then have "100 * of_nat (k + 2) / (of_nat g :: rat) \<le> 100 * of_nat j / of_nat g"
      by (rule grid_exact_mono)
    then have "1 / 10 + 1 / 100000000 < \<bar>w - 100 * of_nat j / of_nat g\<bar>"
      using far by linarith
    then show ?thesis using in_windowD [OF g that(2), of w] by force
  qed
  have "accepted_from g w k = percentage g k" using k(1) hit by (intro accepted_from_hit) simp_all
  moreover have "accepted_from g w g = accepted_from g w k"
    using out k(2) by (intro accepted_from_skip) simp_all
  ultimately show ?thesis by (simp add: getAcceptedColumnWidth_def)
qed

text \<open>
  On a grid of 1000 units the windows of neighbouring percentages touch. The row
  \<open>[0.1, 99.9]\<close> sums to 100; resizing column 0 to 94.1 snaps the other column to 6
  instead of 5.9, and the row sums to 100.1.
\<close>

lemma percentage_1000:
  "percentage 1000 1 = parseFloat (1 / 10)"
  "percentage 1000 2 = parseFloat (2 / 10)"
  "percentage 1000 60 = 6"
  "percentage 1000 61 = parseFloat (61 / 10)"
  "percentage 1000 941 = parseFloat (941 / 10)"
  "percentage 1000 999 = parseFloat (999 / 10)"
  "percentage 1000 1000 = 100"
  unfolding percentage_def of_nat_numeral of_nat_1 by code_simp+

lemma window_1000:
  "in_window 1000 (parseFloat (1 / 10)) 1"
  "\<not> in_window 1000 (parseFloat (1 / 10)) 2"
  "in_window 1000 (parseFloat (999 / 10)) 999"
  "\<not> in_window 1000 (parseFloat (999 / 10)) 1000"
  "in_window 1000 (js_add (parseFloat (999 / 10)) (- parseFloat 94)) 60"
  "\<not> in_window 1000 (js_add (parseFloat (999 / 10)) (- parseFloat 94)) 61"
  unfolding in_window_def percentage_1000 by code_simp+

lemma values_1000:
  "parseFloat (toFixed (js_div 100 1000) (if Math_round (js_div 100 1000) \<noteq> js_div 100 1000 then 8 else 0))
   = parseFloat (1 / 10)"
  "toFixed (js_sub (parseFloat (941 / 10)) (parseFloat (1 / 10))) 8 = 94"
  "parseFloat (1 / 10) + 1 / 10 + 1 / 100000000 < 3 / 10"
  "parseFloat (999 / 10) + 1 / 10 + 1 / 100000000 < 1001 / 10"
  "js_add (parseFloat (999 / 10)) (- parseFloat 94) + 1 / 10 + 1 / 100000000 < 62 / 10"
  "parseFloat (1 / 10) \<noteq> parseFloat (941 / 10)"
  "\<not> parseFloat (941 / 10) < parseFloat (1 / 10)"
  "parseFloat (999 / 10) \<noteq> 6"
  "\<not> 6 < parseFloat (1 / 10)"
  "\<bar>parseFloat (1 / 10) + parseFloat (999 / 10) - 100\<bar> \<le> 1 / 1000000"
  "\<not> \<bar>parseFloat (941 / 10) + 6 - 100\<bar> \<le> 1 / 1000000"
  by code_simp+

lemma accepted_1000:
  "getAcceptedColumnWidth 1000 (parseFloat (1 / 10)) = parseFloat (1 / 10)"
  "getAcceptedColumnWidth 1000 (parseFloat (999 / 10)) = parseFloat (999 / 10)"
  "getAcceptedColumnWidth 1000 (js_add (parseFloat (999 / 10)) (- parseFloat 94)) = 6"
proof -
  have s1: "Suc 1 = 2" and s2: "Suc 999 = 1000" and s3: "Suc 60 = 61" by simp_all
  have f1: "100 * of_nat (1 + 2) / (of_nat 1000 :: rat) = 3 / 10"
    and f2: "100 * of_nat (999 + 2) / (of_nat 1000 :: rat) = 1001 / 10"
    and f3: "100 * of_nat (60 + 2) / (of_nat 1000 :: rat) = 62 / 10"
    by simp_all
  have "getAcceptedColumnWidth 1000 (parseFloat (1 / 10)) = percentage 1000 1"
  proof (rule accepted_at)
    show "in_window 1000 (parseFloat (1 / 10)) 1" by (rule window_1000(1))
    show "\<not> in_window 1000 (parseFloat (1 / 10)) (Suc 1)"
      unfolding s1 by (rule window_1000(2))
    show "parseFloat (1 / 10) + 1 / 10 + 1 / 100000000 < 100 * of_nat (1 + 2) / of_nat 1000"
      unfolding f1 by (rule values_1000(3))
  qed simp_all
  then show "getAcceptedColumnWidth 1000 (parseFloat (1 / 10)) = parseFloat (1 / 10)"
    by (simp only: percentage_1000)
  have "getAcceptedColumnWidth 1000 (parseFloat (999 / 10)) = percentage 1000 999"
  proof (rule accepted_at)
    show "in_window 1000 (parseFloat (999 / 10)) 999" by (rule window_1000(3))
    show "\<not> in_window 1000 (parseFloat (999 / 10)) (Suc 999)"
      unfolding s2 by (rule window_1000(4))
    show "parseFloat (999 / 10) + 1 / 10 + 1 / 100000000 < 100 * of_nat (999 + 2) / of_nat 1000"
      unfolding f2 by (rule values_1000(4))
  qed simp_all
  then show "getAcceptedColumnWidth 1000 (parseFloat (999 / 10)) = parseFloat (999 / 10)"
    by (simp only: percentage_1000)
  have "getAcceptedColumnWidth 1000 (js_add (parseFloat (999 / 10)) (- parseFloat 94))
        = percentage 1000 60"
  proof (rule accepted_at)
    show "in_window 1000 (js_add (parseFloat (999 / 10)) (- parseFloat 94)) 60"
      by (rule window_1000(5))
    show "\<not> in_window 1000 (js_add (parseFloat (999 / 10)) (- parseFloat 94)) (Suc 60)"
      unfolding s3 by (rule window_1000(6))
    show "js_add (parseFloat (999 / 10)) (- parseFloat 94) + 1 / 10 + 1 / 100000000
          < 100 * of_nat (60 + 2) / of_nat 1000"
      unfolding f3 by (rule values_1000(5))
  qed simp_all
  then show "getAcceptedColumnWidth 1000 (js_add (parseFloat (999 / 10)) (- parseFloat 94)) = 6"
    by (simp only: percentage_1000)
qed

lemma smallest_1000: "getSmallestColumnWidth 1000 = parseFloat (1 / 10)"
  unfolding getSmallestColumnWidth_def Let_def of_nat_numeral values_1000(1)
  by (rule accepted_1000(1))

lemma on_grid_1000:
  "on_grid 1000 (parseFloat (1 / 10))"
  "on_grid 1000 (parseFloat (999 / 10))"
  "on_grid 1000 (parseFloat (941 / 10))"
proof -
  have "1 \<le> (1::nat) \<and> (1::nat) \<le> 1000 \<and> parseFloat (1 / 10) = percentage 1000 1"
    by (simp only: percentage_1000) simp
  then show "on_grid 1000 (parseFloat (1 / 10))" unfolding on_grid_iff by (rule exI)
  have "1 \<le> (999::nat) \<and> (999::nat) \<le> 1000 \<and> parseFloat (999 / 10) = percentage 1000 999"
    by (simp only: percentage_1000) simp
  then show "on_grid 1000 (parseFloat (999 / 10))" unfolding on_grid_iff by (rule exI)
  have "1 \<le> (941::nat) \<and> (941::nat) \<le> 1000 \<and> parseFloat (941 / 10) = percentage 1000 941"
    by (simp only: percentage_1000) simp
  then show "on_grid 1000 (parseFloat (941 / 10))" unfolding on_grid_iff by (rule exI)
qed

lemma row_1000:
  "store_of [parseFloat (1 / 10), parseFloat (999 / 10)] 0 = parseFloat (1 / 10)"
  "store_of [parseFloat (1 / 10), parseFloat (999 / 10)] (Suc 0) = parseFloat (999 / 10)"
  by (simp_all add: store_of_def)

lemma resize_grid_1000:
  "resizeColumn 1000 (store_of [parseFloat (1 / 10), parseFloat (999 / 10)]) 0
     (parseFloat (941 / 10)) (Some (Suc 0))
   = (store_of [parseFloat (1 / 10), parseFloat (999 / 10)])
       (Suc 0 := 6, 0 := parseFloat (941 / 10))"
proof -
  define st where "st = store_of [parseFloat (1 / 10), parseFloat (999 / 10)]"
  have w0: "getColumnWidth 1000 st 0 = parseFloat (1 / 10)"
    and w1: "getColumnWidth 1000 st (Suc 0) = parseFloat (999 / 10)"
    by (simp_all only: getColumnWidth_def st_def row_1000 accepted_1000)
  have "difference 1000 st 0 (parseFloat (941 / 10)) = 94"
    by (simp only: difference_def w0 values_1000(2))
  then have size: "shrinkableSize 1000 st 0 (parseFloat (941 / 10)) (Suc 0) = 6"
    by (simp only: shrinkableSize_def w1 accepted_1000(3))
  have "resizeColumn 1000 st 0 (parseFloat (941 / 10)) (Some (Suc 0))
        = st(Suc 0 := 6, 0 := parseFloat (941 / 10))"
    using values_1000(6,7,8,9)
    by (simp add: resizeColumn_Some w0 w1 size smallest_1000 updateColumnWidth_def)
  then show ?thesis by (simp only: st_def)
qed

lemma resize_grid_1000_sum:
  "\<bar>sum_list (map (store_of [parseFloat (1 / 10), parseFloat (999 / 10)]) [0, 1]) - 100\<bar>
     \<le> 1 / 1000000"
  "\<not> \<bar>sum_list (map (resizeColumn 1000 (store_of [parseFloat (1 / 10), parseFloat (999 / 10)]) 0
                        (parseFloat (941 / 10)) (Some 1)) [0, 1]) - 100\<bar> \<le> 1 / 1000000"
proof -
  show "\<bar>sum_list (map (store_of [parseFloat (1 / 10), parseFloat (999 / 10)]) [0, 1]) - 100\<bar>
     \<le> 1 / 1000000"
    using values_1000(10) by (simp add: row_1000)
  show "\<not> \<bar>sum_list (map (resizeColumn 1000 (store_of [parseFloat (1 / 10), parseFloat (999 / 10)]) 0
                        (parseFloat (941 / 10)) (Some 1)) [0, 1]) - 100\<bar> \<le> 1 / 1000000"
    using values_1000(11) by (simp add: resize_grid_1000)
qed

text \<open>
  A row of 207 columns on a grid of 235 units: its widths are grid percentages and sum
  to 100 within one millionth, and after column 0 gives one unit to column 1 they sum
  to less than 99.999999.
\<close>

lemma store_of_sum: "sum_list (map (store_of ws) [0..<length ws]) = sum_list ws"
proof -
  have "map (store_of ws) [0..<length ws] = map ((!) ws) [0..<length ws]"
    by (rule map_cong) (simp_all add: store_of_def)
  then show ?thesis by (simp only: map_nth)
qed

lemma row_235_length: "length row_235 = 207"
  by (simp add: row_235_def)

lemma row_235_first:
  "store_of row_235 0 = percentage 235 2"
  "store_of row_235 (Suc 0) = percentage 235 28"
  by (simp_all add: store_of_def row_235_def)

lemma row_235_grid: "x \<in> set [0..<207] \<Longrightarrow> on_grid 235 (store_of row_235 x)"
proof -
  assume "x \<in> set [0..<207]"
  then have x: "x < 207" by simp
  have g: "on_grid 235 (percentage 235 k)" if "1 \<le> k" "k \<le> 235" for k
    unfolding on_grid_iff using that by blast
  have "store_of row_235 x = row_235 ! x" using x by (simp add: store_of_def row_235_length)
  moreover have "row_235 ! x \<in> set row_235" using x by (simp add: row_235_length)
  moreover have "set row_235 \<subseteq> {percentage 235 2, percentage 235 28, percentage 235 1}"
    by (auto simp: row_235_def)
  ultimately have "store_of row_235 x \<in> {percentage 235 2, percentage 235 28, percentage 235 1}"
    by auto
  then show ?thesis using g [of 2] g [of 28] g [of 1] by auto
qed

lemma row_235_sum:
  "sum_list (map (store_of row_235) [0..<207])
   = percentage 235 2 + percentage 235 28 + 205 * percentage 235 1"
proof -
  have "sum_list (map (store_of row_235) [0..<length row_235]) = sum_list row_235"
    by (rule store_of_sum)
  then show ?thesis by (simp add: row_235_length row_235_def sum_list_replicate)
qed

lemma resize_row_235:
  "resizeColumn 235 (store_of row_235) 0 (percentage 235 1) (Some (Suc 0))
   = (store_of row_235)(Suc 0 := percentage 235 29, 0 := percentage 235 1)"
proof -
  have "resizeColumn 235 (store_of row_235) 0 (percentage 235 1) (Some (Suc 0)) =
          (if 1 = (2::nat) \<or> \<not> ((1::nat) < 28 + 2 \<and> 28 + 2 - (1::nat) \<le> 235) then store_of row_235
           else (store_of row_235)(Suc 0 := percentage 235 (28 + 2 - 1), 0 := percentage 235 1))"
    by (rule resizeColumn_on_grid_exact) (simp_all add: row_235_first)
  also have "\<dots> = (store_of row_235)(Suc 0 := percentage 235 29, 0 := percentage 235 1)"
    by simp
  finally show ?thesis .
qed

lemma values_235:
  "\<bar>percentage 235 2 + percentage 235 28 + 205 * percentage 235 1 - 100\<bar> \<le> 1 / 1000000"
  "\<not> \<bar>percentage 235 1 + percentage 235 29 + 205 * percentage 235 1 - 100\<bar> \<le> 1 / 1000000"
  unfolding percentage_def of_nat_numeral of_nat_1 by code_simp+

lemma resize_row_235_sum:
  "\<bar>sum_list (map (store_of row_235) [0..<207]) - 100\<bar> \<le> 1 / 1000000"
  "\<not> \<bar>sum_list (map (resizeColumn 235 (store_of row_235) 0 (percentage 235 1) (Some (Suc 0)))
                      [0..<207]) - 100\<bar> \<le> 1 / 1000000"
proof -
  show "\<bar>sum_list (map (store_of row_235) [0..<207]) - 100\<bar> \<le> 1 / 1000000"
    by (simp only: row_235_sum values_235(1))
  have d: "distinct [0..<207]" and m0: "0 \<in> set [0..<207]" and m1: "Suc 0 \<in> set [0..<207]"
    by simp_all
  define A where "A = sum_list (map ((store_of row_235)
    (Suc 0 := percentage 235 29, 0 := percentage 235 1)) [0..<207])"
  define B where "B = sum_list (map ((store_of row_235)(Suc 0 := percentage 235 29)) [0..<207])"
  define C where "C = sum_list (map (store_of row_235) [0..<207])"
  have "A = B - ((store_of row_235)(Suc 0 := percentage 235 29)) 0 + percentage 235 1"
    unfolding A_def B_def by (rule sum_list_upd_present [OF d m0])
  moreover have "((store_of row_235)(Suc 0 := percentage 235 29)) 0 = percentage 235 2"
    by (simp add: row_235_first(1))
  moreover have "B = C - store_of row_235 (Suc 0) + percentage 235 29"
    unfolding B_def C_def by (rule sum_list_upd_present [OF d m1])
  moreover have "C = percentage 235 2 + percentage 235 28 + 205 * percentage 235 1"
    unfolding C_def by (rule row_235_sum)
  ultimately have "A = percentage 235 1 + percentage 235 29 + 205 * percentage 235 1"
    unfolding row_235_first(2) by linarith
  then have "sum_list (map ((store_of row_235)(Suc 0 := percentage 235 29, 0 := percentage 235 1))
                   [0..<207])
        = percentage 235 1 + percentage 235 29 + 205 * percentage 235 1"
    unfolding A_def .
  then show "\<not> \<bar>sum_list (map (resizeColumn 235 (store_of row_235) 0 (percentage 235 1) (Some (Suc 0)))
                      [0..<207]) - 100\<bar> \<le> 1 / 1000000"
    by (simp only: resize_row_235 values_235(2) not_False_eq_True)
qed

section \<open>The claims\<close>

text \<open>
  C1. When \<open>currentPos\<close> is at or beyond the handle of the dragged column and
  \<open>history.left\<close> is not empty, the claim takes both \<open>adjustedColumn\<close> and
  \<open>modifyColumnInPair\<close> from the most recent record of \<open>history.left\<close>. The source
  reads the second field after a second in-place \<open>reverse()\<close>, that is from the oldest
  record. With the history \<open>two_decisions\<close>, whose most recent record is
  \<open>(column 0, "right")\<close>, the call returns \<open>(column 0, "left")\<close>.
\<close>

theorem determineAdjustedColumn_history_mixes_records:
  "fst (determineAdjustedColumn 12 [0, 1, 2] (store_of [25, 50, 25]) three_columns 1100 1
          two_decisions) = (Some 0, ''left'', Some ''left'')
   \<and> last (ResizeHistory.left two_decisions)
       = \<lparr>adjustedColumn = Some 0, modifyColumnInPair = ''right''\<rparr>"
proof -
  have "determineAdjustedColumn 12 [0, 1, 2] (store_of [25, 50, 25]) three_columns 1100 1
          two_decisions =
        ((adjustedColumn (last (ResizeHistory.left two_decisions)),
          modifyColumnInPair (hd (ResizeHistory.left two_decisions)), Some ''left''),
         two_decisions)"
    by (rule determineAdjustedColumn_reuse_left)
      (simp_all add: handle_three_columns two_decisions_def del: One_nat_def)
  then show ?thesis by (simp add: two_decisions_def)
qed

text \<open>
  C2, as the source has it. On a grid of 1 to 999 units, take a row of distinct columns
  whose stored widths are grid percentages and sum to 100 within one millionth, where
  the grid has at most 199 units or the row at most 199 columns. After a call of
  \<open>resizeColumn\<close> on a column of the row, with a target width that is a grid percentage
  and with a shrinkable column of the row other than the dragged one, the stored widths
  are grid percentages again and sum to 100 within one millionth, whether the call wrote
  both widths or none.
\<close>

theorem resizeColumn_keeps_row_sum:
  assumes "1 \<le> gridSize" and "gridSize \<le> 999"
    and "gridSize \<le> 199 \<or> length children \<le> 199"
    and "distinct children" and "column \<in> set children" and "sc \<in> set children"
    and "sc \<noteq> column"
    and "\<forall>x \<in> set children. on_grid gridSize (st x)"
    and "on_grid gridSize w"
    and "\<bar>sum_list (map st children) - 100\<bar> \<le> 1 / 1000000"
  shows "(\<forall>x \<in> set children. on_grid gridSize (resizeColumn gridSize st column w (Some sc) x))
         \<and> \<bar>sum_list (map (resizeColumn gridSize st column w (Some sc)) children) - 100\<bar>
             \<le> 1 / 1000000"
  using assms by (rule resize_row_invariant)

theorem resizeColumn_keeps_row_sum_witness:
  "\<bar>sum_list (map (store_of [50, 50]) [0, 1]) - 100\<bar> \<le> 1 / 1000000
   \<and> on_grid 12 (store_of [50, 50] 0) \<and> on_grid 12 (store_of [50, 50] 1) \<and> on_grid 12 25
   \<and> on_grid 12 (resizeColumn 12 (store_of [50, 50]) 0 25 (Some 1) 0)
   \<and> on_grid 12 (resizeColumn 12 (store_of [50, 50]) 0 25 (Some 1) 1)
   \<and> \<bar>sum_list (map (resizeColumn 12 (store_of [50, 50]) 0 25 (Some 1)) [0, 1]) - 100\<bar>
       \<le> 1 / 1000000
   \<and> resizeColumn 12 (store_of [50, 50]) 0 25 (Some 1) 0 = 25
   \<and> resizeColumn 12 (store_of [50, 50]) 0 25 (Some 1) 1 = 75"
proof -
  have h1: "\<forall>x \<in> set [0, 1]. on_grid 12 (store_of [50, 50] x)"
    by (simp add: store_of_50_50 on_grid_12)
  have h2: "\<bar>sum_list (map (store_of [50, 50]) [0, 1]) - 100\<bar> \<le> 1 / 1000000"
    by (simp add: store_of_50_50)
  have h3: "(12 :: nat) \<le> 199 \<or> length [0, 1 :: cid] \<le> 199" "distinct [0, 1 :: cid]"
    "0 \<in> set [0, 1 :: cid]"
    "1 \<in> set [0, 1 :: cid]" "(1 :: cid) \<noteq> 0"
    by simp_all
  show ?thesis
    using h1 h2 resizeColumn_keeps_row_sum [OF _ _ h3 h1 on_grid_12(2) h2]
    by (simp add: resize_50_50_to_25 on_grid_12)
qed

text \<open>
  C2 as stated (for every choice of the shrinkable column) fails: the row \<open>[50, 50]\<close> of a
  grid of 12 sums to 100, and after resizing column 0 to 75 without a shrinkable column
  it sums to 125.
\<close>

theorem resizeColumn_row_sum_counterexample:
  "\<bar>sum_list (map (store_of [50, 50]) [0, 1]) - 100\<bar> \<le> 1 / 1000000
   \<and> \<not> \<bar>sum_list (map (resizeColumn 12 (store_of [50, 50]) 0 75 None) [0, 1]) - 100\<bar>
         \<le> 1 / 1000000"
  by (simp add: resize_50_50_alone store_of_50_50)

text \<open>
  C3, as the source has it. Without a shrinkable column, \<open>resizeColumn\<close> changes no
  column but the dragged one: it leaves the store as it is when the target width is the
  current width of the column or is below \<open>getSmallestColumnWidth()\<close>, and writes the
  target width to the dragged column otherwise.
\<close>

theorem resizeColumn_without_donor:
  "resizeColumn gridSize st column w None =
     (if w = getColumnWidth gridSize st column \<or> w < getSmallestColumnWidth gridSize then st
      else st(column := w))"
  by (auto simp: resizeColumn_None updateColumnWidth_def)

text \<open>
  C3 as stated (no width is mutated when no shrinkable column is passed) fails: on the
  row \<open>[50, 50]\<close> of a grid of 12, resizing column 0 to 25 without a shrinkable column
  changes the store.
\<close>

theorem resizeColumn_without_donor_counterexample:
  "resizeColumn 12 (store_of [50, 50]) 0 25 None \<noteq> store_of [50, 50]"
proof
  assume "resizeColumn 12 (store_of [50, 50]) 0 25 None = store_of [50, 50]"
  then have "resizeColumn 12 (store_of [50, 50]) 0 25 None 0 = store_of [50, 50] 0" by simp
  moreover have "resizeColumn 12 (store_of [50, 50]) 0 25 None 0 = 25"
    using smallest_12_bounds by (simp add: resizeColumn_None width_50_50 updateColumnWidth_def)
  ultimately show False by (simp add: store_of_50_50)
qed

text \<open>
  C4. If the stored width of every column of the row is at least
  \<open>getSmallestColumnWidth()\<close> before a call of \<open>resizeColumn\<close>, it is so after the call,
  whatever the call writes.
\<close>

theorem resizeColumn_keeps_minimum:
  assumes "\<forall>x \<in> set children. getSmallestColumnWidth gridSize \<le> st x"
  shows "\<forall>x \<in> set children.
           getSmallestColumnWidth gridSize \<le> resizeColumn gridSize st column w shrinkableColumn x"
proof (cases shrinkableColumn)
  case None
  then show ?thesis using assms by (auto simp: resizeColumn_None updateColumnWidth_def)
next
  case (Some sc)
  then show ?thesis using assms by (auto simp: resizeColumn_Some updateColumnWidth_def)
qed

theorem resizeColumn_keeps_minimum_witness:
  "getSmallestColumnWidth 12 \<le> store_of [50, 50] 0
   \<and> getSmallestColumnWidth 12 \<le> store_of [50, 50] 1
   \<and> getSmallestColumnWidth 12 \<le> resizeColumn 12 (store_of [50, 50]) 0 25 (Some 1) 0
   \<and> getSmallestColumnWidth 12 \<le> resizeColumn 12 (store_of [50, 50]) 0 25 (Some 1) 1
   \<and> resizeColumn 12 (store_of [50, 50]) 0 25 (Some 1) 0 = 25
   \<and> resizeColumn 12 (store_of [50, 50]) 0 25 (Some 1) 1 = 75"
proof -
  have h: "\<forall>x \<in> set [0, 1]. getSmallestColumnWidth 12 \<le> store_of [50, 50] x"
    using smallest_12_bounds by (simp add: store_of_def)
  show ?thesis
    using h resizeColumn_keeps_minimum [OF h, of 0 25 "Some 1"]
    by (simp add: resize_50_50_to_25)
qed

text \<open>
  C5. With a shrinkable column passed, if its snapped new width \<open>shrinkableSize\<close> equals
  its current width or is below \<open>getSmallestColumnWidth()\<close>, then \<open>resizeColumn\<close>
  writes neither the width of the dragged column nor that of the shrinkable column: the
  store is unchanged.
\<close>

theorem resizeColumn_abort_atomic:
  assumes "shrinkableSize gridSize st column w sc = getColumnWidth gridSize st sc
           \<or> shrinkableSize gridSize st column w sc < getSmallestColumnWidth gridSize"
  shows "resizeColumn gridSize st column w (Some sc) = st"
  using assms by (auto simp: resizeColumn_Some)

theorem resizeColumn_abort_atomic_witness:
  "(shrinkableSize 12 (store_of [50, 50]) 0 30 1 = getColumnWidth 12 (store_of [50, 50]) 1
    \<or> shrinkableSize 12 (store_of [50, 50]) 0 30 1 < getSmallestColumnWidth 12)
   \<and> resizeColumn 12 (store_of [50, 50]) 0 30 (Some 1) = store_of [50, 50]"
proof -
  have h: "shrinkableSize 12 (store_of [50, 50]) 0 30 1 = getColumnWidth 12 (store_of [50, 50]) 1
    \<or> shrinkableSize 12 (store_of [50, 50]) 0 30 1 < getSmallestColumnWidth 12"
    using smallest_12_bounds by (simp add: shrinkableSize_50_50_30)
  show ?thesis using h resizeColumn_abort_atomic [OF h] by simp
qed

text \<open>
  C6. If the target width is the current width of the column (\<open>getColumnWidth\<close>) or is
  below \<open>getSmallestColumnWidth()\<close>, \<open>resizeColumn\<close> writes no width at all.
\<close>

theorem resizeColumn_same_or_below_minimum_no_mutation:
  assumes "w = getColumnWidth gridSize st column \<or> w < getSmallestColumnWidth gridSize"
  shows "resizeColumn gridSize st column w shrinkableColumn = st"
  using assms by (auto simp: resizeColumn_def Let_def)

theorem resizeColumn_same_or_below_minimum_no_mutation_witness:
  "(50 = getColumnWidth 12 (store_of [50, 50]) 0 \<or> 50 < getSmallestColumnWidth 12)
   \<and> resizeColumn 12 (store_of [50, 50]) 0 50 (Some 1) = store_of [50, 50]
   \<and> (5 = getColumnWidth 12 (store_of [50, 50]) 0 \<or> 5 < getSmallestColumnWidth 12)
   \<and> resizeColumn 12 (store_of [50, 50]) 0 5 (Some 1) = store_of [50, 50]"
proof -
  have h1: "50 = getColumnWidth 12 (store_of [50, 50]) 0 \<or> 50 < getSmallestColumnWidth 12"
    by (simp add: width_50_50)
  have h2: "5 = getColumnWidth 12 (store_of [50, 50]) 0 \<or> 5 < getSmallestColumnWidth 12"
    using smallest_12_bounds by simp
  show ?thesis
    using h1 h2 resizeColumn_same_or_below_minimum_no_mutation [OF h1, of "Some 1"]
      resizeColumn_same_or_below_minimum_no_mutation [OF h2, of "Some 1"]
    by simp
qed

text \<open>
  C7. \<open>determineMaxGhostWidth\<close> returns the position of the first candidate for
  \<open>"left"\<close> as \<open>left\<close> and the position of the last candidate for \<open>"right"\<close> as
  \<open>right\<close>; when there is no candidate for \<open>"left"\<close> or none for \<open>"right"\<close> it throws
  and returns nothing.
\<close>

theorem determineMaxGhostWidth_first_left_last_right:
  "determineMaxGhostWidth columnWidths =
     (let leftColumns = filter (\<lambda>w. forColumn w = ''left'') columnWidths;
          rightColumns = filter (\<lambda>w. forColumn w = ''right'') columnWidths
      in if leftColumns = [] \<or> rightColumns = [] then Inl TypeError
         else Inr \<lparr>MaxGhostWidth.left = position (hd leftColumns),
                   MaxGhostWidth.right = position (last rightColumns)\<rparr>)"
  by (auto simp: determineMaxGhostWidth_def Let_def last_conv_nth split: list.splits)

text \<open>
  C8, as the source has it. \<open>getAcceptedColumnWidth\<close> is idempotent for every width when
  the grid size is between 1 and 999, where two grid percentages are more than 0.1 apart.
\<close>

theorem getAcceptedColumnWidth_idempotent:
  assumes "1 \<le> gridSize" and "gridSize \<le> 999"
  shows "getAcceptedColumnWidth gridSize (getAcceptedColumnWidth gridSize w)
         = getAcceptedColumnWidth gridSize w"
  using assms by (rule accepted_idem)

theorem getAcceptedColumnWidth_idempotent_witness:
  "(1::nat) \<le> 12 \<and> (12::nat) \<le> 999
   \<and> getAcceptedColumnWidth 12 (getAcceptedColumnWidth 12 (parseFloat (49995 / 1000)))
       = getAcceptedColumnWidth 12 (parseFloat (49995 / 1000))"
  using getAcceptedColumnWidth_idempotent [of 12 "parseFloat (49995 / 1000)"] by simp

text \<open>
  C8 as stated (idempotent for every grid size from 1) fails: on a grid of 2000 units the
  width \<open>"99.86"\<close> is accepted as 99.95, and 99.95 is accepted as 100.
\<close>

theorem getAcceptedColumnWidth_idempotent_counterexample:
  "getAcceptedColumnWidth 2000 (getAcceptedColumnWidth 2000 (parseFloat (9986 / 100)))
   \<noteq> getAcceptedColumnWidth 2000 (parseFloat (9986 / 100))"
  by (simp only: accepted_2000_first accepted_2000_second window_2000(4) not_False_eq_True)

text \<open>
  C9, as the source has it. At grid size 12 \<open>getSmallestColumnWidth()\<close> is the number
  8.33333333, and at grid size 3 it is the number 33.33333333.
\<close>

theorem getSmallestColumnWidth_12_and_3:
  "getSmallestColumnWidth 12 = parseFloat (833333333 / 100000000)
   \<and> getSmallestColumnWidth 3 = parseFloat (3333333333 / 100000000)"
  by (simp only: smallest_12 smallest_3 simp_thms)

text \<open>C9 as stated fails in its second half: at grid size 3 the result is not 33.\<close>

theorem getSmallestColumnWidth_3_counterexample: "getSmallestColumnWidth 3 \<noteq> 33"
  by (simp only: smallest_3 number_33_33333333 not_False_eq_True)

text \<open>
  C10. \<open>getAdjacentColumn\<close> returns \<open>null\<close> exactly when the index of the column plus
  the direction is outside the column sequence of the row; \<open>determineColumnWidths\<close>
  throws exactly when the column has no right neighbour, and so on the last column of a
  row.
\<close>

theorem getAdjacentColumn_none_iff_outside:
  "(getAdjacentColumn children column direction = None
      \<longleftrightarrow> getColumnIndexInGroup children column + parseInt_direction direction < 0
          \<or> int (length children) \<le> getColumnIndexInGroup children column + parseInt_direction direction)
   \<and> (determineColumnWidths gridSize children preview column groupPosition = Inl TypeError
      \<longleftrightarrow> getAdjacentColumn children column Plus1 = None)
   \<and> (getColumnIndexInGroup children column = int (length children) - 1
      \<longrightarrow> determineColumnWidths gridSize children preview column groupPosition = Inl TypeError)"
  by (auto simp: getAdjacentColumn_def determineColumnWidths_def Let_def split: option.splits)

theorem getAdjacentColumn_none_iff_outside_witness:
  "getColumnIndexInGroup [0, 1, 2] 2 = int (length [0, 1, 2 :: cid]) - 1
   \<and> determineColumnWidths 12 [0, 1, 2] three_columns 2
         \<lparr>GroupPositionCache.left = 100, outerWidth = 1200\<rparr> = Inl TypeError
   \<and> getAdjacentColumn [0, 1, 2] 2 Plus1 = None
   \<and> getAdjacentColumn [0, 1, 2] 1 Plus1 = Some 2
   \<and> getAdjacentColumn [0, 1, 2] 0 Minus1 = None"
  using getAdjacentColumn_none_iff_outside [of "[0, 1, 2]" 2 Plus1 12 three_columns
      "\<lparr>GroupPositionCache.left = 100, outerWidth = 1200\<rparr>"]
    getAdjacentColumn_none_iff_outside [of "[0, 1, 2]" 0 Minus1 12 three_columns
      "\<lparr>GroupPositionCache.left = 100, outerWidth = 1200\<rparr>"]
  by (simp add: getColumnIndexInGroup_def getAdjacentColumn_def Let_def)

end
